theory Spec2Isabelle
  imports Main "HOL-Library.Sublist" "HOL-Library.Word"
begin

unbundle bit_operations_syntax

chapter \<open>The model\<close>

text \<open>
  Go strings are byte sequences and \<open>len\<close> counts bytes, so a Go string is a
  \<open>string\<close> (a list of 8-bit characters) and \<open>+\<close> on strings is \<open>@\<close>.
  Go's \<open>int\<close> has 64 bits; every integer below is a length, a count of syntax-tree
  nodes or a small multiple of one, far from the wrap-around, so \<open>int\<close> is used.
\<close>

section \<open>Syntax trees and the regexp/syntax library\<close>

text \<open>
  The analysers work on \<open>*syntax.Regexp\<close> values of Go's standard library: a node
  with an operation tag, a slice of children, a slice of runes and the bounds of a
  repetition. The model keeps that shape, so that a star without a child or a
  concatenation without children, which the source guards against, can be written.
\<close>

datatype Op =
    OpNoMatch | OpEmptyMatch | OpLiteral | OpCharClass | OpAnyCharNotNL | OpAnyChar
  | OpBeginLine | OpEndLine | OpBeginText | OpEndText | OpWordBoundary | OpNoWordBoundary
  | OpCapture | OpStar | OpPlus | OpQuest | OpRepeat | OpConcat | OpAlternate

type_synonym rune = int

datatype Regexp =
  Regexp (Op: Op) (Sub: "Regexp list") (Rune: "rune list") (Min: int) (Max: int)

text \<open>
  The library itself is not part of the repository. Its three entry points that the
  code calls are parameters of the model: \<open>syntax.Parse\<close> (\<open>Inl\<close> carries the
  library's error message), \<open>Regexp.Simplify\<close> and \<open>Regexp.String\<close>.
\<close>

record syntax_lib =
  syntax_Parse :: "string \<Rightarrow> nat \<Rightarrow> string + Regexp"
  syntax_Simplify :: "Regexp \<Rightarrow> Regexp"
  syntax_String :: "Regexp \<Rightarrow> string"

definition Perl :: nat where
  \<comment> \<open>\<open>syntax.Perl = ClassNL | OneLine | PerlX | UnicodeGroups\<close>\<close>
  "Perl = 4 + 16 + 64 + 128"

text \<open>
  \<open>string(r)\<close> for a rune \<open>r\<close> is its UTF-8 encoding; a rune outside the Unicode
  range or a surrogate half encodes as U+FFFD.
\<close>

definition string_of_rune :: "rune \<Rightarrow> string" where
  "string_of_rune r =
     (if r < 0 \<or> r > 0x10FFFF \<or> (0xD800 \<le> r \<and> r \<le> 0xDFFF)
      then [CHR 0xEF, CHR 0xBF, CHR 0xBD]
      else if r < 0x80 then [char_of r]
      else if r < 0x800 then [char_of (0xC0 + r div 64), char_of (0x80 + r mod 64)]
      else if r < 0x10000
      then [char_of (0xE0 + r div 4096), char_of (0x80 + (r div 64) mod 64),
            char_of (0x80 + r mod 64)]
      else [char_of (0xF0 + r div 262144), char_of (0x80 + (r div 4096) mod 64),
            char_of (0x80 + (r div 64) mod 64), char_of (0x80 + r mod 64)])"

section \<open>Package parser: parsing and tree utilities\<close>

datatype error =
    ErrInvalidPattern string
  | ErrPatternTooLong int int
  | ErrNoPumpPattern

record Parser =
  flags :: nat

definition NewParser :: Parser where
  "NewParser = \<lparr>flags = Perl\<rparr>"

definition Parse :: "syntax_lib \<Rightarrow> Parser \<Rightarrow> string \<Rightarrow> error + Regexp" where
  "Parse L p pattern =
     (case syntax_Parse L pattern (flags p) of
        Inl err \<Rightarrow> Inl (ErrInvalidPattern err)
      | Inr re \<Rightarrow> Inr (syntax_Simplify L re))"

definition IsQuantifier :: "Regexp \<Rightarrow> bool" where
  "IsQuantifier re =
     (case Op re of OpStar \<Rightarrow> True | OpPlus \<Rightarrow> True | OpQuest \<Rightarrow> True
      | OpRepeat \<Rightarrow> True | _ \<Rightarrow> False)"

definition IsAlternation :: "Regexp \<Rightarrow> bool" where
  "IsAlternation re = (Op re = OpAlternate)"

fun HasQuantifier :: "Regexp \<Rightarrow> bool" where
  "HasQuantifier (Regexp op subs rs mn mx) =
     (if IsQuantifier (Regexp op subs rs mn mx) then True
      else list_ex HasQuantifier subs)"

fun CountQuantifiers :: "Regexp \<Rightarrow> int" where
  "CountQuantifiers (Regexp op subs rs mn mx) =
     fold (\<lambda>sub count. count + CountQuantifiers sub) subs
       (if IsQuantifier (Regexp op subs rs mn mx) then 1 else 0)"

fun getNestingDepthHelper :: "Regexp \<Rightarrow> int \<Rightarrow> int" where
  "getNestingDepthHelper (Regexp op subs rs mn mx) currentDepth =
     (let maxDepth = currentDepth;
          quant = IsQuantifier (Regexp op subs rs mn mx);
          currentDepth' = (if quant then currentDepth + 1 else currentDepth);
          maxDepth = (if quant \<and> currentDepth' > maxDepth then currentDepth' else maxDepth)
      in fold (\<lambda>sub maxDepth.
                 let subDepth = getNestingDepthHelper sub currentDepth'
                 in if subDepth > maxDepth then subDepth else maxDepth)
           subs maxDepth)"

definition GetNestingDepth :: "Regexp \<Rightarrow> int" where
  "GetNestingDepth re = getNestingDepthHelper re 0"

text \<open>
  \<open>Walk\<close> calls the visitor on a node and, when the visitor answers true, walks the
  children from left to right. The visitors of the source are closures that update
  variables of the enclosing function; here the visitor takes those variables as a
  state and returns them updated, next to its answer.
\<close>

fun Walk :: "Regexp \<Rightarrow> (Regexp \<Rightarrow> 's \<Rightarrow> bool \<times> 's) \<Rightarrow> 's \<Rightarrow> 's" where
  "Walk (Regexp op subs rs mn mx) visitor s =
     (let r = visitor (Regexp op subs rs mn mx) s
      in if fst r then fold (\<lambda>sub s'. Walk sub visitor s') subs (snd r) else snd r)"

section \<open>Package analyzer: the complexity scorer\<close>

datatype metric = MInt int | MBool bool

record analyzer_Options =
  a_Timeout :: int
  a_MaxComplexityScore :: int

record analyzer_ComplexityScore =
  a_Score :: int
  a_Complexity :: string
  a_Description :: string
  a_TimeClass :: string
  a_Degree :: int
  a_Issues :: "string list"
  a_Metrics :: "string \<rightharpoonup> metric"

record Analyzer =
  a_opts :: analyzer_Options

definition second :: int where
  \<comment> \<open>\<open>time.Second\<close>, in nanoseconds\<close>
  "second = 1000000000"

definition millisecond :: int where
  "millisecond = 1000000"

definition NewAnalyzer :: "analyzer_Options option \<Rightarrow> Analyzer" where
  "NewAnalyzer opts =
     (case opts of
        None \<Rightarrow> \<lparr>a_opts = \<lparr>a_Timeout = 5 * second, a_MaxComplexityScore = 100\<rparr>\<rparr>
      | Some opts \<Rightarrow> \<lparr>a_opts = opts\<rparr>)"

text \<open>The complexity strings \<open>O(n^2)\<close> and \<open>O(n^3)\<close> of the source are written with
  the superscript digits U+00B2 and U+00B3, two bytes each in UTF-8.\<close>

definition O_n2 :: string where
  "O_n2 = ''O(n'' @ [CHR 0xC2, CHR 0xB2] @ '')''"

definition O_n3 :: string where
  "O_n3 = ''O(n'' @ [CHR 0xC2, CHR 0xB3] @ '')''"

definition walkRegexp :: "Regexp \<Rightarrow> (Regexp \<Rightarrow> 's \<Rightarrow> bool \<times> 's) \<Rightarrow> 's \<Rightarrow> 's" where
  \<comment> \<open>the analyzer's own copy of \<open>parser.Walk\<close>, the same text\<close>
  "walkRegexp = Walk"

definition isQuantifier :: "Regexp \<Rightarrow> bool" where
  "isQuantifier re =
     (case Op re of OpStar \<Rightarrow> True | OpPlus \<Rightarrow> True | OpQuest \<Rightarrow> True
      | OpRepeat \<Rightarrow> True | _ \<Rightarrow> False)"

fun hasQuantifier :: "Regexp \<Rightarrow> bool" where
  "hasQuantifier (Regexp op subs rs mn mx) =
     (if isQuantifier (Regexp op subs rs mn mx) then True
      else list_ex hasQuantifier subs)"

fun containsQuantifierRecursive :: "Regexp \<Rightarrow> bool" where
  "containsQuantifierRecursive (Regexp op subs rs mn mx) =
     (if isQuantifier (Regexp op subs rs mn mx) then True
      else if op = OpConcat \<or> op = OpCapture
      then list_ex containsQuantifierRecursive subs
      else False)"

definition isTrulyNested :: "Regexp \<Rightarrow> bool" where
  "isTrulyNested re =
     (if \<not> isQuantifier re \<or> length (Sub re) = 0 then False
      else containsQuantifierRecursive (hd (Sub re)))"

definition hasNestedQuantifiers :: "Regexp \<Rightarrow> bool" where
  "hasNestedQuantifiers re =
     walkRegexp re
       (\<lambda>node result.
          if isQuantifier node \<and> isTrulyNested node then (False, True)
          else (True, result))
       False"

fun getQuantifierDepthHelper :: "Regexp \<Rightarrow> int \<Rightarrow> int" where
  "getQuantifierDepthHelper (Regexp op subs rs mn mx) current =
     (let current' = (if isQuantifier (Regexp op subs rs mn mx) then current + 1 else current)
      in fold (\<lambda>sub maxDepth.
                 let depth = getQuantifierDepthHelper sub current'
                 in if depth > maxDepth then depth else maxDepth)
           subs current')"

definition getQuantifierDepth :: "Regexp \<Rightarrow> int" where
  "getQuantifierDepth re =
     (if \<not> isQuantifier re then 0
      else fold (\<lambda>sub maxSubDepth.
                   let depth = getQuantifierDepthHelper sub 0
                   in if depth > maxSubDepth then depth else maxSubDepth)
             (Sub re) 0 + 1)"

definition countQuantifiers :: "Regexp \<Rightarrow> int" where
  "countQuantifiers re =
     walkRegexp re
       (\<lambda>node count. (True, if isQuantifier node then count + 1 else count)) 0"

text \<open>
  The inner loop of \<open>findOverlappingQuantifiers\<close> over the children of a
  concatenation: it counts consecutive quantifiers and stops (\<open>break\<close>) at the second
  one in a row, after appending the node once.
\<close>

fun consecutiveQuantifiers :: "Regexp list \<Rightarrow> int \<Rightarrow> bool" where
  "consecutiveQuantifiers [] consecutive = False"
| "consecutiveQuantifiers (sub # subs) consecutive =
     (if isQuantifier sub
      then (if consecutive + 1 \<ge> 2 then True else consecutiveQuantifiers subs (consecutive + 1))
      else consecutiveQuantifiers subs 0)"

definition findOverlappingQuantifiers :: "syntax_lib \<Rightarrow> Regexp \<Rightarrow> string list" where
  "findOverlappingQuantifiers L re =
     walkRegexp re
       (\<lambda>node sequences.
          (True,
           if Op node = OpConcat \<and> consecutiveQuantifiers (Sub node) 0
           then sequences @ [syntax_String L node] else sequences))
       []"

text \<open>The loop of \<open>hasOverlappingBranches\<close> over the branches after the first.\<close>

definition hasOverlappingBranches :: "Regexp \<Rightarrow> bool" where
  "hasOverlappingBranches re =
     (if Op re \<noteq> OpAlternate \<or> length (Sub re) < 2 then False
      else list_ex (\<lambda>sub. Op sub = Op (hd (Sub re))) (tl (Sub re)))"

definition hasDotStar :: "Regexp \<Rightarrow> bool" where
  "hasDotStar re =
     walkRegexp re
       (\<lambda>node result.
          if Op node = OpStar \<and> length (Sub node) > 0
             \<and> (Op (hd (Sub node)) = OpAnyChar \<or> Op (hd (Sub node)) = OpAnyCharNotNL)
          then (False, True)
          else (True, result))
       False"

definition analyzeNesting :: "Regexp \<Rightarrow> analyzer_ComplexityScore \<Rightarrow> analyzer_ComplexityScore" where
  "analyzeNesting re score =
     (let (maxDepth, nestedCount) =
            walkRegexp re
              (\<lambda>node (maxDepth, nestedCount).
                 if isQuantifier node
                 then (let depth = getQuantifierDepth node;
                           maxDepth = (if depth > maxDepth then depth else maxDepth);
                           nestedCount = (if isTrulyNested node then nestedCount + 1
                                          else nestedCount)
                       in (True, (maxDepth, nestedCount)))
                 else (True, (maxDepth, nestedCount)))
              (0, 0);
          score = score\<lparr>a_Metrics := (a_Metrics score)(''nesting_depth'' \<mapsto> MInt maxDepth)\<rparr>;
          score = score\<lparr>a_Metrics :=
                    (a_Metrics score)(''nested_quantifiers'' \<mapsto> MInt nestedCount)\<rparr>
      in if nestedCount > 0
         then score\<lparr>a_Score := a_Score score + (40 + nestedCount * 10),
                    a_Issues := a_Issues score @ [''nested quantifiers (exponential risk)''],
                    a_TimeClass := ''exponential'',
                    a_Degree := nestedCount + 1\<rparr>
         else if maxDepth > 3
         then score\<lparr>a_Score := a_Score score + (15 + maxDepth * 5),
                    a_Issues := a_Issues score @ [''deep nesting'']\<rparr>
         else score)"

definition analyzeQuantifiers ::
  "syntax_lib \<Rightarrow> Regexp \<Rightarrow> analyzer_ComplexityScore \<Rightarrow> analyzer_ComplexityScore" where
  "analyzeQuantifiers L re score =
     (let quantifierCount = countQuantifiers re;
          overlappingSeqs = findOverlappingQuantifiers L re;
          score = score\<lparr>a_Metrics :=
                    (a_Metrics score)(''quantifier_count'' \<mapsto> MInt quantifierCount)\<rparr>;
          score = score\<lparr>a_Metrics :=
                    (a_Metrics score)(''overlapping_sequences'' \<mapsto>
                       MInt (int (length overlappingSeqs)))\<rparr>;
          score =
            (if length overlappingSeqs > 0
             then (let degree = int (length overlappingSeqs) + 1;
                       baseScore = 25 + degree * 10;
                       score = score\<lparr>a_Score := a_Score score + baseScore\<rparr>;
                       score = score\<lparr>a_Issues := a_Issues score @
                                 [if degree = 2 then ''overlapping quantifiers (quadratic)''
                                  else if degree = 3 then ''overlapping quantifiers (cubic)''
                                  else ''overlapping quantifiers (high polynomial)'']\<rparr>
                   in if a_TimeClass score = ''linear''
                      then score\<lparr>a_TimeClass := ''polynomial'', a_Degree := degree\<rparr>
                      else score)
             else score)
      in if quantifierCount > 15
         then score\<lparr>a_Score := a_Score score + (10 + (quantifierCount - 15)),
                    a_Issues := a_Issues score @ [''excessive quantifiers'']\<rparr>
         else score)"

definition analyzeAlternations :: "Regexp \<Rightarrow> analyzer_ComplexityScore \<Rightarrow> analyzer_ComplexityScore" where
  "analyzeAlternations re score =
     (let (alternationCount, overlappingAlts) =
            walkRegexp re
              (\<lambda>node (alternationCount, overlappingAlts).
                 if Op node = OpAlternate
                 then (True, (alternationCount + 1,
                              if hasOverlappingBranches node then overlappingAlts + 1
                              else overlappingAlts))
                 else (True, (alternationCount, overlappingAlts)))
              (0::int, 0::int);
          score = score\<lparr>a_Metrics :=
                    (a_Metrics score)(''alternations'' \<mapsto> MInt alternationCount)\<rparr>;
          score = score\<lparr>a_Metrics :=
                    (a_Metrics score)(''overlapping_alternations'' \<mapsto> MInt overlappingAlts)\<rparr>
      in if overlappingAlts > 0
         then score\<lparr>a_Score := a_Score score + (20 + overlappingAlts * 5),
                    a_Issues := a_Issues score @ [''overlapping alternation branches'']\<rparr>
         else score)"

definition analyzePattern ::
  "syntax_lib \<Rightarrow> Regexp \<Rightarrow> analyzer_ComplexityScore \<Rightarrow> analyzer_ComplexityScore" where
  "analyzePattern L re score =
     (let patternLen = int (length (syntax_String L re));
          score = score\<lparr>a_Metrics :=
                    (a_Metrics score)(''pattern_length'' \<mapsto> MInt patternLen)\<rparr>;
          score = (if patternLen > 500
                   then score\<lparr>a_Score := a_Score score + 10,
                              a_Issues := a_Issues score @ [''very long pattern'']\<rparr>
                   else score)
      in if hasDotStar re
         then score\<lparr>a_Score := a_Score score + 5,
                    a_Metrics := (a_Metrics score)(''has_dotstar'' \<mapsto> MBool True)\<rparr>
         else score)"

definition determineComplexity :: "analyzer_ComplexityScore \<Rightarrow> analyzer_ComplexityScore" where
  "determineComplexity score =
     (if a_TimeClass score = ''exponential''
      then (let score = score\<lparr>a_Complexity := ''O(2^n)'',
                  a_Description :=
                    ''Exponential time complexity - catastrophic backtracking risk''\<rparr>
            in if a_Score score < 70 then score\<lparr>a_Score := 70\<rparr> else score)
      else if a_TimeClass score = ''polynomial''
      then (let score =
                  (if a_Degree score = 2
                   then score\<lparr>a_Complexity := O_n2,
                          a_Description :=
                            ''Quadratic time complexity - moderate backtracking risk''\<rparr>
                   else if a_Degree score = 3
                   then score\<lparr>a_Complexity := O_n3,
                          a_Description := ''Cubic time complexity - high backtracking risk''\<rparr>
                   else score\<lparr>a_Complexity := ''O(n^k)'',
                          a_Description := ''Polynomial time complexity - backtracking risk''\<rparr>)
            in if a_Score score < 40 then score\<lparr>a_Score := 40\<rparr> else score)
      else if a_TimeClass score = ''linear''
      then (if a_Score score < 20
            then score\<lparr>a_Complexity := ''O(n)'',
                   a_Description := ''Linear time complexity - good performance''\<rparr>
            else score\<lparr>a_Complexity := ''O(n)'',
                   a_Description := ''Linear time complexity with some inefficiencies''\<rparr>)
      else (if a_Score score < 10
            then score\<lparr>a_Complexity := ''O(1)'',
                   a_Description := ''Constant time complexity - excellent performance'',
                   a_TimeClass := ''constant''\<rparr>
            else score))"

definition Analyze ::
  "syntax_lib \<Rightarrow> Analyzer \<Rightarrow> Regexp \<Rightarrow> string \<Rightarrow> error + analyzer_ComplexityScore" where
  "Analyze L a re pattern =
     (let score = \<lparr>a_Score = 0, a_Complexity = ''O(n)'',
                   a_Description = ''Linear time complexity'', a_TimeClass = ''linear'',
                   a_Degree = 1, a_Issues = [], a_Metrics = Map.empty\<rparr>;
          score = analyzeNesting re score;
          score = analyzeQuantifiers L re score;
          score = analyzeAlternations re score;
          score = analyzePattern L re score;
          score = determineComplexity score;
          score = (if a_Score score > a_MaxComplexityScore (a_opts a)
                   then score\<lparr>a_Score := a_MaxComplexityScore (a_opts a)\<rparr> else score)
      in Inr score)"

definition EstimateComplexity :: "syntax_lib \<Rightarrow> Analyzer \<Rightarrow> Regexp \<Rightarrow> string" where
  "EstimateComplexity L a re =
     (if hasNestedQuantifiers re then ''O(2^n)''
      else let overlapping = findOverlappingQuantifiers L re
           in if length overlapping > 0
              then (let degree = int (length overlapping) + 1
                    in if degree = 2 then O_n2 else if degree = 3 then O_n3 else ''O(n^k)'')
              else if countQuantifiers re > 0 then ''O(n)'' else ''O(1)'')"

section \<open>Package parser: the automaton\<close>

text \<open>
  The automaton of the source is a graph of \<open>*State\<close> pointers, which the builder
  mutates as it goes. In the model the automaton owns the list of its states, a
  pointer to a state is the position of that state in the list (the builder appends
  states and never removes one, so a position, once handed out, stays valid), and
  the builder returns the updated automaton. No analysis reads what a transition
  is labelled with beyond its type, so a label carries its type only; the runes,
  class ranges and anchor operation of the source's label are left out.
\<close>

datatype TransitionType =
  TransitionLiteral | TransitionClass | TransitionAny | TransitionEpsilon | TransitionAnchor

record TransitionLabel =
  l_Type :: TransitionType

record Transition =
  t_From :: nat
  t_To :: nat
  t_Label :: TransitionLabel
  t_IsEpsilon :: bool

record State =
  s_ID :: int
  s_IsAccept :: bool
  s_Transitions :: "Transition list"
  s_EpsilonTo :: "nat list"

record NFA =
  nfa_Start :: "nat option"
  nfa_Accept :: "nat option"
  nfa_States :: "State list"
  nfa_StateCount :: int
  nfa_Transitions :: "nat \<Rightarrow> Transition list"

definition NewNFA :: NFA where
  "NewNFA = \<lparr>nfa_Start = None, nfa_Accept = None, nfa_States = [], nfa_StateCount = 0,
             nfa_Transitions = (\<lambda>_. [])\<rparr>"

definition NewState :: "NFA \<Rightarrow> NFA \<times> nat" where
  "NewState nfa =
     (let state = \<lparr>s_ID = nfa_StateCount nfa, s_IsAccept = False, s_Transitions = [],
                   s_EpsilonTo = []\<rparr>
      in (nfa\<lparr>nfa_States := nfa_States nfa @ [state],
               nfa_StateCount := nfa_StateCount nfa + 1\<rparr>,
          length (nfa_States nfa)))"

definition update_state :: "NFA \<Rightarrow> nat \<Rightarrow> (State \<Rightarrow> State) \<Rightarrow> NFA" where
  \<comment> \<open>a write through a state pointer\<close>
  "update_state nfa p f = nfa\<lparr>nfa_States := (nfa_States nfa)[p := f (nfa_States nfa ! p)]\<rparr>"

definition AddTransition :: "NFA \<Rightarrow> nat \<Rightarrow> nat \<Rightarrow> TransitionLabel \<Rightarrow> NFA" where
  "AddTransition nfa from to label =
     (let trans = \<lparr>t_From = from, t_To = to, t_Label = label,
                   t_IsEpsilon = (l_Type label = TransitionEpsilon)\<rparr>;
          nfa = update_state nfa from (\<lambda>s. s\<lparr>s_Transitions := s_Transitions s @ [trans]\<rparr>);
          nfa = nfa\<lparr>nfa_Transitions :=
                  (nfa_Transitions nfa)(from := nfa_Transitions nfa from @ [trans])\<rparr>
      in if t_IsEpsilon trans
         then update_state nfa from (\<lambda>s. s\<lparr>s_EpsilonTo := s_EpsilonTo s @ [to]\<rparr>)
         else nfa)"

definition AddEpsilonTransition :: "NFA \<Rightarrow> nat \<Rightarrow> nat \<Rightarrow> NFA" where
  "AddEpsilonTransition nfa from to = AddTransition nfa from to \<lparr>l_Type = TransitionEpsilon\<rparr>"

text \<open>
  \<open>buildLiteral\<close>: one transition for each rune, through fresh states, the last one
  into \<open>accept\<close>. For an empty rune slice the loop does nothing.
\<close>

fun buildLiteral_loop :: "NFA \<Rightarrow> rune list \<Rightarrow> nat \<Rightarrow> nat \<Rightarrow> NFA" where
  "buildLiteral_loop nfa [] current accept = nfa"
| "buildLiteral_loop nfa [r] current accept =
     AddTransition nfa current accept \<lparr>l_Type = TransitionLiteral\<rparr>"
| "buildLiteral_loop nfa (r # rs) current accept =
     (let (nfa, next) = NewState nfa;
          nfa = AddTransition nfa current next \<lparr>l_Type = TransitionLiteral\<rparr>
      in buildLiteral_loop nfa rs next accept)"

definition buildLiteral :: "NFA \<Rightarrow> Regexp \<Rightarrow> nat \<Rightarrow> nat \<Rightarrow> error + NFA" where
  "buildLiteral nfa re start accept = Inr (buildLiteral_loop nfa (Rune re) start accept)"

definition buildCharClass :: "NFA \<Rightarrow> Regexp \<Rightarrow> nat \<Rightarrow> nat \<Rightarrow> error + NFA" where
  \<comment> \<open>the source pairs up \<open>re.Rune\<close> into ranges, which regexp/syntax keeps of even length\<close>
  "buildCharClass nfa re start accept =
     Inr (AddTransition nfa start accept \<lparr>l_Type = TransitionClass\<rparr>)"

definition buildAnyChar :: "NFA \<Rightarrow> Regexp \<Rightarrow> nat \<Rightarrow> nat \<Rightarrow> error + NFA" where
  "buildAnyChar nfa re start accept =
     Inr (AddTransition nfa start accept \<lparr>l_Type = TransitionAny\<rparr>)"

text \<open>
  \<open>buildNFAFromRegexp\<close> and the builders that call it back. Each loop of the source
  over children or over a repetition count is a function of the recursion:
  \<open>buildConcat_loop\<close> (children of a concatenation, threading \<open>current\<close>),
  \<open>buildAlternate_loop\<close> (branches), \<open>buildRepeat_min\<close> (the required copies; it
  returns \<open>current\<close>) and \<open>buildRepeat_opt\<close> (the optional copies).
\<close>

function (sequential)
    buildNFAFromRegexp :: "NFA \<Rightarrow> Regexp \<Rightarrow> nat \<Rightarrow> nat \<Rightarrow> error + NFA"
and buildConcat_loop :: "NFA \<Rightarrow> Regexp list \<Rightarrow> nat \<Rightarrow> nat \<Rightarrow> error + NFA"
and buildAlternate_loop :: "NFA \<Rightarrow> Regexp list \<Rightarrow> nat \<Rightarrow> nat \<Rightarrow> error + NFA"
and buildRepeat_min :: "NFA \<Rightarrow> Regexp \<Rightarrow> nat \<Rightarrow> nat \<Rightarrow> error + NFA \<times> nat"
and buildRepeat_opt :: "NFA \<Rightarrow> Regexp \<Rightarrow> nat \<Rightarrow> nat \<Rightarrow> error + NFA \<times> nat"
where
  "buildNFAFromRegexp nfa (Regexp op subs rs mn mx) start accept =
     (case op of
        OpLiteral \<Rightarrow> buildLiteral nfa (Regexp op subs rs mn mx) start accept
      | OpCharClass \<Rightarrow> buildCharClass nfa (Regexp op subs rs mn mx) start accept
      | OpAnyChar \<Rightarrow> buildAnyChar nfa (Regexp op subs rs mn mx) start accept
      | OpAnyCharNotNL \<Rightarrow> buildAnyChar nfa (Regexp op subs rs mn mx) start accept
      | OpConcat \<Rightarrow>
          \<comment> \<open>\<open>buildConcat\<close>\<close>
          (if length subs = 0 then Inr (AddEpsilonTransition nfa start accept)
           else buildConcat_loop nfa subs start accept)
      | OpAlternate \<Rightarrow>
          \<comment> \<open>\<open>buildAlternate\<close>\<close>
          buildAlternate_loop nfa subs start accept
      | OpStar \<Rightarrow>
          \<comment> \<open>\<open>buildStar\<close>\<close>
          (case subs of
             [] \<Rightarrow> Inr (AddEpsilonTransition nfa start accept)
           | sub # _ \<Rightarrow>
               (let (nfa, loopStart) = NewState nfa;
                    (nfa, loopEnd) = NewState nfa;
                    nfa = AddEpsilonTransition nfa start loopStart;
                    nfa = AddEpsilonTransition nfa start accept
                in case buildNFAFromRegexp nfa sub loopStart loopEnd of
                     Inl err \<Rightarrow> Inl err
                   | Inr nfa \<Rightarrow>
                       (let nfa = AddEpsilonTransition nfa loopEnd loopStart;
                            nfa = AddEpsilonTransition nfa loopEnd accept
                        in Inr nfa)))
      | OpPlus \<Rightarrow>
          \<comment> \<open>\<open>buildPlus\<close>\<close>
          (case subs of
             [] \<Rightarrow> Inr (AddEpsilonTransition nfa start accept)
           | sub # _ \<Rightarrow>
               (let (nfa, loopStart) = NewState nfa;
                    (nfa, loopEnd) = NewState nfa;
                    nfa = AddEpsilonTransition nfa start loopStart
                in case buildNFAFromRegexp nfa sub loopStart loopEnd of
                     Inl err \<Rightarrow> Inl err
                   | Inr nfa \<Rightarrow>
                       (let nfa = AddEpsilonTransition nfa loopEnd loopStart;
                            nfa = AddEpsilonTransition nfa loopEnd accept
                        in Inr nfa)))
      | OpQuest \<Rightarrow>
          \<comment> \<open>\<open>buildQuest\<close>\<close>
          (case subs of
             [] \<Rightarrow> Inr (AddEpsilonTransition nfa start accept)
           | sub # _ \<Rightarrow>
               (let nfa = AddEpsilonTransition nfa start accept
                in buildNFAFromRegexp nfa sub start accept))
      | OpRepeat \<Rightarrow>
          \<comment> \<open>\<open>buildRepeat\<close>\<close>
          (case subs of
             [] \<Rightarrow> Inr (AddEpsilonTransition nfa start accept)
           | sub # _ \<Rightarrow>
               (case buildRepeat_min nfa sub (nat mn) start of
                  Inl err \<Rightarrow> Inl err
                | Inr (nfa, current) \<Rightarrow>
                    (if mx = - 1
                     then (let (nfa, loopStart) = NewState nfa;
                               (nfa, loopEnd) = NewState nfa;
                               nfa = AddEpsilonTransition nfa current loopStart;
                               nfa = AddEpsilonTransition nfa current accept
                           in case buildNFAFromRegexp nfa sub loopStart loopEnd of
                                Inl err \<Rightarrow> Inl err
                              | Inr nfa \<Rightarrow>
                                  (let nfa = AddEpsilonTransition nfa loopEnd loopStart;
                                       nfa = AddEpsilonTransition nfa loopEnd accept
                                   in Inr nfa))
                     else (case buildRepeat_opt nfa sub (nat (mx - mn)) current of
                             Inl err \<Rightarrow> Inl err
                           | Inr (nfa, current) \<Rightarrow>
                               Inr (AddEpsilonTransition nfa current accept)))))
      | OpCapture \<Rightarrow>
          (case subs of
             [] \<Rightarrow> Inr (AddEpsilonTransition nfa start accept)
           | sub # _ \<Rightarrow> buildNFAFromRegexp nfa sub start accept)
      | OpEmptyMatch \<Rightarrow> Inr (AddEpsilonTransition nfa start accept)
      | OpBeginLine \<Rightarrow> Inr (AddTransition nfa start accept \<lparr>l_Type = TransitionAnchor\<rparr>)
      | OpEndLine \<Rightarrow> Inr (AddTransition nfa start accept \<lparr>l_Type = TransitionAnchor\<rparr>)
      | OpBeginText \<Rightarrow> Inr (AddTransition nfa start accept \<lparr>l_Type = TransitionAnchor\<rparr>)
      | OpEndText \<Rightarrow> Inr (AddTransition nfa start accept \<lparr>l_Type = TransitionAnchor\<rparr>)
      | _ \<Rightarrow> Inr (AddEpsilonTransition nfa start accept))"
| "buildConcat_loop nfa [] current accept = Inr nfa"
| "buildConcat_loop nfa [sub] current accept = buildNFAFromRegexp nfa sub current accept"
| "buildConcat_loop nfa (sub # subs) current accept =
     (let (nfa, next) = NewState nfa
      in case buildNFAFromRegexp nfa sub current next of
           Inl err \<Rightarrow> Inl err
         | Inr nfa \<Rightarrow> buildConcat_loop nfa subs next accept)"
| "buildAlternate_loop nfa [] start accept = Inr nfa"
| "buildAlternate_loop nfa (sub # subs) start accept =
     (let (nfa, altStart) = NewState nfa;
          (nfa, altEnd) = NewState nfa;
          nfa = AddEpsilonTransition nfa start altStart
      in case buildNFAFromRegexp nfa sub altStart altEnd of
           Inl err \<Rightarrow> Inl err
         | Inr nfa \<Rightarrow>
             buildAlternate_loop (AddEpsilonTransition nfa altEnd accept) subs start accept)"
| "buildRepeat_min nfa sub 0 current = Inr (nfa, current)"
| "buildRepeat_min nfa sub (Suc n) current =
     (let (nfa, next) = NewState nfa
      in case buildNFAFromRegexp nfa sub current next of
           Inl err \<Rightarrow> Inl err
         | Inr nfa \<Rightarrow> buildRepeat_min nfa sub n next)"
| "buildRepeat_opt nfa sub 0 current = Inr (nfa, current)"
| "buildRepeat_opt nfa sub (Suc n) current =
     (let (nfa, next) = NewState nfa;
          nfa = AddEpsilonTransition nfa current next
      in case buildNFAFromRegexp nfa sub current next of
           Inl err \<Rightarrow> Inl err
         | Inr nfa \<Rightarrow> buildRepeat_opt nfa sub n next)"
  by pat_completeness auto
termination
  by (relation "inv_image (less_than <*lex*> less_than)
       (\<lambda>x. case x of
          Inl (Inl (nfa, re, start, accept)) \<Rightarrow> (size re, 0)
        | Inl (Inr (nfa, subs, current, accept)) \<Rightarrow> (size_list size subs, 0)
        | Inr (Inl (nfa, subs, start, accept)) \<Rightarrow> (size_list size subs, 0)
        | Inr (Inr (Inl (nfa, sub, n, current))) \<Rightarrow> (size sub, Suc n)
        | Inr (Inr (Inr (nfa, sub, n, current))) \<Rightarrow> (size sub, Suc n))")
    auto

definition BuildNFA :: "Regexp \<Rightarrow> error + NFA" where
  "BuildNFA re =
     (let nfa = NewNFA;
          (nfa, start) = NewState nfa;
          (nfa, accept) = NewState nfa;
          nfa = update_state nfa accept (\<lambda>s. s\<lparr>s_IsAccept := True\<rparr>);
          nfa = nfa\<lparr>nfa_Start := Some start, nfa_Accept := Some accept\<rparr>
      in case buildNFAFromRegexp nfa re start accept of
           Inl err \<Rightarrow> Inl err
         | Inr nfa \<Rightarrow> Inr nfa)"

text \<open>
  \<open>ComputeEpsilonClosure\<close> marks states in a map that all recursive calls share.
  The model threads the set of marked states through the calls: the helper returns
  it updated, and \<open>computeEpsilonClosure_loop\<close> is the helper's loop over the
  epsilon successors. A position outside the state list is no state of the
  automaton and has no successors.
\<close>

function
    computeEpsilonClosureHelper :: "NFA \<Rightarrow> nat \<Rightarrow> nat set \<Rightarrow> nat set"
and computeEpsilonClosure_loop :: "NFA \<Rightarrow> nat list \<Rightarrow> nat set \<Rightarrow> nat set"
where
  "computeEpsilonClosureHelper nfa state closure =
     (if state \<in> closure then closure
      else if state \<ge> length (nfa_States nfa) then insert state closure
      else computeEpsilonClosure_loop nfa (s_EpsilonTo (nfa_States nfa ! state))
             (insert state closure))"
| "computeEpsilonClosure_loop nfa [] closure = closure"
| "computeEpsilonClosure_loop nfa (next # rest) closure =
     computeEpsilonClosure_loop nfa rest (computeEpsilonClosureHelper nfa next closure)"
  by pat_completeness auto

lemma computeEpsilonClosure_grows:
  "computeEpsilonClosureHelper_computeEpsilonClosure_loop_dom (Inl (nfa, state, closure)) \<Longrightarrow>
     closure \<subseteq> computeEpsilonClosureHelper nfa state closure"
  "computeEpsilonClosureHelper_computeEpsilonClosure_loop_dom (Inr (nfa, nexts, closure)) \<Longrightarrow>
     closure \<subseteq> computeEpsilonClosure_loop nfa nexts closure"
proof (induction nfa state closure and nfa nexts closure
    rule: computeEpsilonClosureHelper_computeEpsilonClosure_loop.pinduct)
  case (1 nfa state closure)
  then show ?case
    by (auto simp: computeEpsilonClosureHelper.psimps)
next
  case (2 nfa closure)
  then show ?case
    by (simp add: computeEpsilonClosure_loop.psimps)
next
  case (3 nfa "next" rest closure)
  then show ?case
    by (auto simp: computeEpsilonClosure_loop.psimps)
qed

lemma card_unmarked_less:
  assumes "state < n" and "state \<notin> closure"
  shows "card ({..<n} - insert state closure) < card ({..<n::nat} - closure)"
proof -
  have "{..<n} - insert state closure \<subset> {..<n} - closure"
    using assms by blast
  moreover have "finite ({..<n} - closure)"
    by simp
  ultimately show ?thesis
    by (rule psubset_card_mono [rotated])
qed

lemma card_unmarked_le:
  "closure \<subseteq> closure' \<Longrightarrow> card ({..<n} - closure') \<le> card ({..<n::nat} - closure)"
  by (intro card_mono) auto

termination computeEpsilonClosureHelper
proof (relation "inv_image (less_than <*lex*> less_than)
         (\<lambda>x. case x of
            Inl (nfa, state, closure) \<Rightarrow>
              (card ({..<length (nfa_States nfa)} - closure), 0)
          | Inr (nfa, nexts, closure) \<Rightarrow>
              (card ({..<length (nfa_States nfa)} - closure), Suc (length nexts)))",
       goal_cases)
  case 1
  show ?case by (intro wf_inv_image wf_lex_prod wf_less_than)
next
  case (2 nfa state closure)
  have "card ({..<length (nfa_States nfa)} - insert state closure)
               < card ({..<length (nfa_States nfa)} - closure)"
  proof (rule card_unmarked_less)
    from 2 show "state < length (nfa_States nfa)" by simp
    from 2 show "state \<notin> closure" by simp
  qed
  then show ?case by simp
next
  case (3 nfa "next" rest closure)
  show ?case by simp
next
  case (4 nfa "next" rest closure)
  from computeEpsilonClosure_grows(1) [OF 4]
  have "card ({..<length (nfa_States nfa)} - computeEpsilonClosureHelper nfa next closure)
          \<le> card ({..<length (nfa_States nfa)} - closure)"
    by (rule card_unmarked_le)
  then show ?case by auto
qed

declare computeEpsilonClosureHelper.simps [simp del]

definition ComputeEpsilonClosure :: "NFA \<Rightarrow> nat \<Rightarrow> nat set" where
  "ComputeEpsilonClosure nfa state = computeEpsilonClosureHelper nfa state {}"

section \<open>Package pump: the pump generator\<close>

record pump_Options =
  PumpSize :: int
  MaxPumpSize :: int
  IncludeFailure :: bool

record pump_PumpPattern =
  BaseString :: string
  PumpComponent :: string
  FailSuffix :: string
  p_Description :: string
  Sizes :: "int list"

record Generator =
  g_opts :: pump_Options

definition NewGenerator :: "pump_Options option \<Rightarrow> Generator" where
  "NewGenerator opts =
     (case opts of
        None \<Rightarrow> \<lparr>g_opts = \<lparr>PumpSize = 10, MaxPumpSize = 100, IncludeFailure = True\<rparr>\<rparr>
      | Some opts \<Rightarrow> \<lparr>g_opts = opts\<rparr>)"

definition pump_walk :: "Regexp \<Rightarrow> (Regexp \<Rightarrow> 's \<Rightarrow> bool \<times> 's) \<Rightarrow> 's \<Rightarrow> 's" where
  \<comment> \<open>\<open>pump.walk\<close>, the same text as \<open>parser.Walk\<close>\<close>
  "pump_walk = Walk"

definition pump_isQuantifier :: "Regexp \<Rightarrow> bool" where
  "pump_isQuantifier re =
     (case Op re of OpStar \<Rightarrow> True | OpPlus \<Rightarrow> True | OpQuest \<Rightarrow> True
      | OpRepeat \<Rightarrow> True | _ \<Rightarrow> False)"

fun containsQuantifier :: "Regexp \<Rightarrow> bool" where
  "containsQuantifier (Regexp op subs rs mn mx) =
     (if pump_isQuantifier (Regexp op subs rs mn mx) then True
      else list_ex containsQuantifier subs)"

definition pump_hasNestedQuantifiers :: "Regexp \<Rightarrow> bool" where
  "pump_hasNestedQuantifiers re =
     pump_walk re
       (\<lambda>node result.
          if pump_isQuantifier node \<and> list_ex containsQuantifier (Sub node)
          then (False, True) else (True, result))
       False"

fun pump_consecutiveQuantifiers :: "Regexp list \<Rightarrow> int \<Rightarrow> bool" where
  "pump_consecutiveQuantifiers [] consecutive = False"
| "pump_consecutiveQuantifiers (sub # subs) consecutive =
     (if pump_isQuantifier sub
      then (if consecutive + 1 \<ge> 2 then True
            else pump_consecutiveQuantifiers subs (consecutive + 1))
      else pump_consecutiveQuantifiers subs 0)"

definition hasOverlappingQuantifiers :: "Regexp \<Rightarrow> bool" where
  "hasOverlappingQuantifiers re =
     pump_walk re
       (\<lambda>node result.
          if Op node = OpConcat \<and> pump_consecutiveQuantifiers (Sub node) 0
          then (False, True) else (True, result))
       False"

definition pump_branchesOverlap :: "syntax_lib \<Rightarrow> Regexp \<Rightarrow> Regexp \<Rightarrow> bool" where
  "pump_branchesOverlap L a b =
     (let aStr = syntax_String L a; bStr = syntax_String L b
      in if length aStr > 0 \<and> length bStr > 0
         then prefix bStr aStr \<or> prefix aStr bStr
         else False)"

text \<open>
  The two nested loops \<open>for i := 0 ..; for j := i + 1 ..\<close> that look for a pair of
  branches \<open>i < j\<close> satisfying a test, in the order in which the source tries them.
\<close>

fun anyPair :: "('a \<Rightarrow> 'a \<Rightarrow> bool) \<Rightarrow> 'a list \<Rightarrow> bool" where
  "anyPair test [] = False"
| "anyPair test (a # rest) = (list_ex (test a) rest \<or> anyPair test rest)"

definition hasOverlappingAlternation :: "syntax_lib \<Rightarrow> Regexp \<Rightarrow> bool" where
  "hasOverlappingAlternation L re =
     pump_walk re
       (\<lambda>node result.
          if Op node = OpAlternate \<and> length (Sub node) \<ge> 2
             \<and> anyPair (pump_branchesOverlap L) (Sub node)
          then (False, True) else (True, result))
       False"

definition extractPumpChar :: "Regexp \<Rightarrow> string" where
  "extractPumpChar re =
     (let result =
            pump_walk re
              (\<lambda>node result.
                 if Op node = OpLiteral \<and> length (Rune node) > 0
                 then (False, string_of_rune (hd (Rune node)))
                 else if Op node = OpCharClass then (False, ''a'')
                 else if Op node = OpAnyChar \<or> Op node = OpAnyCharNotNL then (False, ''a'')
                 else (True, result))
              ''''
      in if result = '''' then ''a'' else result)"

definition generateNestedQuantifierPump :: "Generator \<Rightarrow> Regexp \<Rightarrow> pump_PumpPattern" where
  "generateNestedQuantifierPump g re =
     \<lparr>BaseString = '''', PumpComponent = extractPumpChar re, FailSuffix = ''x'',
      p_Description = ''Nested quantifiers cause exponential backtracking. ''
        @ ''Each 'a' doubles the number of ways to match.'',
      Sizes = [5, 10, 15, 20, 25]\<rparr>"

definition generateOverlappingQuantifierPump :: "Generator \<Rightarrow> Regexp \<Rightarrow> pump_PumpPattern" where
  "generateOverlappingQuantifierPump g re =
     \<lparr>BaseString = '''', PumpComponent = extractPumpChar re, FailSuffix = ''x'',
      p_Description = ''Overlapping quantifiers cause polynomial backtracking. ''
        @ ''Regex tries all ways to split input between quantifiers.'',
      Sizes = [10, 20, 30, 40, 50]\<rparr>"

definition generateAlternationPump :: "Generator \<Rightarrow> Regexp \<Rightarrow> pump_PumpPattern" where
  "generateAlternationPump g re =
     \<lparr>BaseString = '''', PumpComponent = ''ab'', FailSuffix = ''x'',
      p_Description = ''Overlapping alternation branches cause backtracking. ''
        @ ''Regex tries each branch at each position.'',
      Sizes = [5, 10, 15, 20]\<rparr>"

definition generateGenericPump :: "Generator \<Rightarrow> Regexp \<Rightarrow> pump_PumpPattern" where
  "generateGenericPump g re =
     (let baseChar = extractPumpChar re;
          baseChar = (if baseChar = '''' then ''a'' else baseChar)
      in \<lparr>BaseString = '''', PumpComponent = baseChar, FailSuffix = ''x'',
          p_Description = ''Generic pump pattern to test regex performance'',
          Sizes = [10, 50, 100]\<rparr>)"

definition pump_Generate ::
  "syntax_lib \<Rightarrow> Generator \<Rightarrow> Regexp \<Rightarrow> string \<Rightarrow> error + pump_PumpPattern list" where
  "pump_Generate L g re pattern =
     (let patterns = [];
          patterns = (if pump_hasNestedQuantifiers re
                      then patterns @ [generateNestedQuantifierPump g re] else patterns);
          patterns = (if hasOverlappingQuantifiers re
                      then patterns @ [generateOverlappingQuantifierPump g re] else patterns);
          patterns = (if hasOverlappingAlternation L re
                      then patterns @ [generateAlternationPump g re] else patterns);
          patterns = (if length patterns = 0
                      then patterns @ [generateGenericPump g re] else patterns)
      in Inr patterns)"

section \<open>Package regret: the public types\<close>

text \<open>
  \<open>detector.ValidationMode\<close> and the public \<open>ValidationMode\<close> are integer types with
  the same three constants, converted by value; a mode is an \<open>int\<close> in both.
\<close>

type_synonym ValidationMode = int

definition Fast :: ValidationMode where "Fast = 0"
definition Balanced :: ValidationMode where "Balanced = 1"
definition Thorough :: ValidationMode where "Thorough = 2"

type_synonym CheckFlags = "32 word"

definition CheckNestedQuantifiers :: CheckFlags where "CheckNestedQuantifiers = 1"
definition CheckOverlappingAlternation :: CheckFlags where "CheckOverlappingAlternation = 2"
definition CheckCatastrophicBacktrack :: CheckFlags where "CheckCatastrophicBacktrack = 4"
definition CheckUnboundedRepetition :: CheckFlags where "CheckUnboundedRepetition = 8"
definition CheckExponentialPaths :: CheckFlags where "CheckExponentialPaths = 16"
definition CheckComplexityScore :: CheckFlags where "CheckComplexityScore = 32"
definition CheckMemoryUsage :: CheckFlags where "CheckMemoryUsage = 64"
definition CheckNFAAmbiguity :: CheckFlags where "CheckNFAAmbiguity = 128"
definition CheckPolynomialDegree :: CheckFlags where "CheckPolynomialDegree = 256"
definition CheckContextAwareness :: CheckFlags where "CheckContextAwareness = 512"

definition CheckAll :: CheckFlags where
  "CheckAll = NOT 0"

definition CheckDefault :: CheckFlags where
  "CheckDefault =
     CheckNestedQuantifiers OR CheckOverlappingAlternation OR CheckCatastrophicBacktrack
       OR CheckNFAAmbiguity"

record Options =
  Mode :: ValidationMode
  Timeout :: int
  Checks :: CheckFlags
  MaxComplexityScore :: int
  MaxPatternLength :: int
  MaxNestingDepth :: int
  MaxQuantifiers :: int
  StrictMode :: bool
  AllowUnsafe :: bool

definition DefaultOptions :: Options where
  "DefaultOptions =
     \<lparr>Mode = Balanced, Timeout = 100 * millisecond, Checks = CheckDefault,
      MaxComplexityScore = 70, MaxPatternLength = 1000, MaxNestingDepth = 3,
      MaxQuantifiers = 20, StrictMode = False, AllowUnsafe = False\<rparr>"

definition FastOptions :: Options where
  "FastOptions =
     \<lparr>Mode = Fast, Timeout = 10 * millisecond,
      Checks = CheckNestedQuantifiers OR CheckCatastrophicBacktrack,
      MaxComplexityScore = 70, MaxPatternLength = 1000, MaxNestingDepth = 3,
      MaxQuantifiers = 20, StrictMode = False, AllowUnsafe = False\<rparr>"

definition ThoroughOptions :: Options where
  "ThoroughOptions =
     \<lparr>Mode = Thorough, Timeout = 1 * second, Checks = CheckAll,
      MaxComplexityScore = 70, MaxPatternLength = 2000, MaxNestingDepth = 5,
      MaxQuantifiers = 50, StrictMode = True, AllowUnsafe = False\<rparr>"

datatype Severity = Critical | High | Medium | Low | Info

datatype IssueType =
    NestedQuantifiers | OverlappingAlternation | RepeatedCaptureGroup
  | ExponentialBacktracking | PolynomialBacktracking | UnboundedRepetition
  | AmbiguousPattern | ComplexityThresholdExceeded | ContextuallyDangerous

record Position =
  Start :: int
  End :: int
  Line :: int
  Column :: int

record Issue =
  Type :: IssueType
  Severity :: Severity
  Position :: Position
  Pattern :: string
  Message :: string
  Example :: string
  Suggestion :: string
  Complexity :: int
  Details :: "string \<rightharpoonup> metric"

datatype Complexity = Constant | Linear | Quadratic | Cubic | Polynomial | Exponential | Unknown

record Metrics =
  NestingDepth :: int
  QuantifierCount :: int
  AlternationCount :: int

record ComplexityScore =
  Overall :: int
  TimeComplexity :: Complexity
  SpaceComplexity :: Complexity
  HasEDA :: bool
  HasIDA :: bool
  PolynomialDegree :: int
  Metrics :: Metrics
  WorstCaseInput :: string
  PumpComponents :: "string list"
  Explanation :: string
  Safe :: bool

section \<open>Package detector: issues\<close>

record detector_Options =
  d_Mode :: ValidationMode
  d_Checks :: "32 word"

record detector_Position =
  d_Start :: int
  d_End :: int
  d_Line :: int
  d_Column :: int

record detector_Issue =
  d_Type :: string
  d_Severity :: string
  d_Position :: detector_Position
  d_Pattern :: string
  d_Message :: string
  d_Example :: string
  d_Suggestion :: string
  d_Complexity :: int

definition span :: "string \<Rightarrow> detector_Position" where
  \<comment> \<open>\<open>Position{Start: 0, End: len(pattern)}\<close>\<close>
  "span pattern = \<lparr>d_Start = 0, d_End = int (length pattern), d_Line = 0, d_Column = 0\<rparr>"

text \<open>The verb \<open>%d\<close> of \<open>fmt.Sprintf\<close>: an integer in decimal.\<close>

function decimal :: "nat \<Rightarrow> string" where
  "decimal n =
     (if n < 10 then [char_of (48 + n)]
      else decimal (n div 10) @ [char_of (48 + n mod 10)])"
  by pat_completeness auto
termination
  by (relation "measure id") auto

declare decimal.simps [simp del]

definition Sprint_d :: "int \<Rightarrow> string" where
  "Sprint_d i = (if i < 0 then ''-'' @ decimal (nat (- i)) else decimal (nat i))"

section \<open>Package detector: analysis of the automaton\<close>

text \<open>
  \<open>hasCycle\<close> keeps the states of the current search path in a map shared by all
  calls: a call marks its state, searches the successors, and unmarks the state
  before it answers false. The model threads the map through the calls as a set
  and returns it next to the answer; \<open>hasCycle_loop\<close> is the loop over the epsilon
  successors, left at the first successor that answers true.
\<close>

function
    hasCycle :: "NFA \<Rightarrow> nat \<Rightarrow> nat set \<Rightarrow> bool \<times> nat set"
and hasCycle_loop :: "NFA \<Rightarrow> nat list \<Rightarrow> nat set \<Rightarrow> bool \<times> nat set"
where
  "hasCycle nfa state visited =
     (if state \<in> visited then (True, visited)
      else if state \<ge> length (nfa_States nfa) then (False, insert state visited - {state})
      else (let (found, visited') =
                  hasCycle_loop nfa (s_EpsilonTo (nfa_States nfa ! state)) (insert state visited)
            in if found then (True, visited') else (False, visited' - {state})))"
| "hasCycle_loop nfa [] visited = (False, visited)"
| "hasCycle_loop nfa (next # rest) visited =
     (let (found, visited') = hasCycle nfa next visited
      in if found then (True, visited') else hasCycle_loop nfa rest visited')"
  by pat_completeness auto

lemma hasCycle_restores:
  "hasCycle_hasCycle_loop_dom (Inl (nfa, state, visited)) \<Longrightarrow>
     \<not> fst (hasCycle nfa state visited) \<Longrightarrow> snd (hasCycle nfa state visited) = visited"
  "hasCycle_hasCycle_loop_dom (Inr (nfa, nexts, visited)) \<Longrightarrow>
     \<not> fst (hasCycle_loop nfa nexts visited) \<Longrightarrow>
     snd (hasCycle_loop nfa nexts visited) = visited"
proof (induction nfa state visited and nfa nexts visited rule: hasCycle_hasCycle_loop.pinduct)
  case (1 nfa state visited)
  then show ?case
    by (auto simp: hasCycle.psimps Let_def split: prod.splits if_splits)
next
  case (2 nfa visited)
  then show ?case
    by (simp add: hasCycle_loop.psimps)
next
  case (3 nfa "next" rest visited)
  then show ?case
    by (auto simp: hasCycle_loop.psimps Let_def split: prod.splits if_splits)
qed

termination hasCycle
proof (relation "inv_image (less_than <*lex*> less_than)
         (\<lambda>x. case x of
            Inl (nfa, state, visited) \<Rightarrow>
              (card ({..<length (nfa_States nfa)} - visited), 0)
          | Inr (nfa, nexts, visited) \<Rightarrow>
              (card ({..<length (nfa_States nfa)} - visited), Suc (length nexts)))",
       goal_cases)
  case 1
  show ?case by (intro wf_inv_image wf_lex_prod wf_less_than)
next
  case (2 nfa state visited)
  have "card ({..<length (nfa_States nfa)} - insert state visited)
               < card ({..<length (nfa_States nfa)} - visited)"
  proof (rule card_unmarked_less)
    from 2 show "state < length (nfa_States nfa)" by simp
    from 2 show "state \<notin> visited" by simp
  qed
  then show ?case by simp
next
  case (3 nfa "next" rest visited)
  show ?case by simp
next
  case (4 nfa "next" rest visited x found visited')
  from 4 have eq: "hasCycle nfa next visited = (False, visited')"
    by (cases "hasCycle nfa next visited") simp
  from 4 have "hasCycle_hasCycle_loop_dom (Inl (nfa, next, visited))"
    by simp
  from hasCycle_restores(1) [OF this] eq have "visited' = visited"
    by simp
  then show ?case by simp
qed

declare hasCycle.simps [simp del]

definition isInQuantifierLoop :: "NFA \<Rightarrow> nat \<Rightarrow> bool" where
  "isInQuantifierLoop nfa state = fst (hasCycle nfa state {})"

definition countPathsToState :: "NFA \<Rightarrow> nat \<Rightarrow> int" where
  "countPathsToState nfa target =
     (let closure = ComputeEpsilonClosure nfa target
      in if card closure > 3 then int (card closure) else 1)"

text \<open>
  The methods of \<open>NFAAnalyzer\<close> that read the automaton take it from the receiver,
  where \<open>AnalyzePattern\<close> has just stored it; here it is an argument. The loop of
  \<open>findAmbiguousStates\<close> over \<open>nfa.States\<close> visits the positions in order.
\<close>

definition findAmbiguousStates :: "NFA \<Rightarrow> nat list" where
  "findAmbiguousStates nfa =
     fold (\<lambda>state ambiguous.
             let pathCount = countPathsToState nfa state
             in if pathCount > 1 then ambiguous @ [state] else ambiguous)
       [0..<length (nfa_States nfa)] []"

definition generateEDAExample :: "nat \<Rightarrow> string" where
  "generateEDAExample state = ''aaaaaaaaaaaax''"

definition findNestedQuantifiersInNFA :: "syntax_lib \<Rightarrow> Regexp \<Rightarrow> string list" where
  "findNestedQuantifiersInNFA L re =
     Walk re
       (\<lambda>node nested.
          if \<not> IsQuantifier node then (True, nested)
          else (True, if list_ex HasQuantifier (Sub node)
                      then nested @ [syntax_String L node] else nested))
       []"

definition quantifiersCanOverlap :: "Regexp \<Rightarrow> Regexp \<Rightarrow> bool" where
  "quantifiersCanOverlap q1 q2 = True"

text \<open>
  The loop of \<open>findOverlappingQuantifierSequences\<close> over the children of one
  concatenation; its state is the pair of \<open>sequences\<close> and \<open>currentSeq\<close>.
\<close>

definition sequence_step ::
  "syntax_lib \<Rightarrow> Regexp \<Rightarrow> string list list \<times> string list \<Rightarrow> string list list \<times> string list"
where
  "sequence_step L sub = (\<lambda>(sequences, currentSeq).
     if IsQuantifier sub
     then (if length currentSeq > 0 \<and> quantifiersCanOverlap sub sub
           then (sequences, currentSeq @ [syntax_String L sub])
           else if length currentSeq = 0
           then (sequences, currentSeq @ [syntax_String L sub])
           else (if length currentSeq \<ge> 2 then sequences @ [currentSeq] else sequences,
                 [syntax_String L sub]))
     else (if length currentSeq \<ge> 2 then sequences @ [currentSeq] else sequences, []))"

definition findOverlappingQuantifierSequences :: "syntax_lib \<Rightarrow> Regexp \<Rightarrow> string list list" where
  "findOverlappingQuantifierSequences L re =
     fst (Walk re
       (\<lambda>node (sequences, currentSeq).
          if Op node = OpConcat
          then (let (sequences, currentSeq) =
                      fold (sequence_step L) (Sub node) (sequences, [])
                in (True, (if length currentSeq \<ge> 2 then sequences @ [currentSeq]
                           else sequences,
                           currentSeq)))
          else (True, (sequences, currentSeq)))
       ([], []))"

definition detectEDA :: "syntax_lib \<Rightarrow> NFA \<Rightarrow> Regexp \<Rightarrow> string \<Rightarrow> detector_Issue list" where
  "detectEDA L nfa re pattern =
     (let ambiguousStates = findAmbiguousStates nfa;
          issues =
            fold (\<lambda>state issues.
                    if isInQuantifierLoop nfa state
                    then issues @
                      [\<lparr>d_Type = ''exponential_backtracking'', d_Severity = ''critical'',
                        d_Position = span pattern, d_Pattern = pattern,
                        d_Message =
                          ''Exponential ambiguity detected: multiple paths through quantifier'',
                        d_Example = generateEDAExample state,
                        d_Suggestion = ''Remove nested quantifiers or use atomic grouping'',
                        d_Complexity = 95\<rparr>]
                    else issues)
              ambiguousStates [];
          nestedQuantifiers = findNestedQuantifiersInNFA L re
      in if length nestedQuantifiers > 0
         then issues @
           [\<lparr>d_Type = ''exponential_backtracking'', d_Severity = ''critical'',
             d_Position = span pattern, d_Pattern = pattern,
             d_Message = ''Nested quantifiers create exponential ambiguity'',
             d_Example = ''aaaaaaaax'', d_Suggestion = ''Simplify quantifier nesting'',
             d_Complexity = 95\<rparr>]
         else issues)"

definition detectIDA :: "syntax_lib \<Rightarrow> NFA \<Rightarrow> Regexp \<Rightarrow> string \<Rightarrow> detector_Issue list" where
  "detectIDA L nfa re pattern =
     fold (\<lambda>seq issues.
             let degree = int (length seq)
             in if degree \<ge> 2
                then (let complexity = 50 + degree * 10;
                          complexity = (if complexity > 90 then 90 else complexity);
                          complexityStr = (if degree = 3 then O_n3
                                           else if degree > 3 then ''O(n^k)'' else O_n2)
                      in issues @
                        [\<lparr>d_Type = ''polynomial_backtracking'', d_Severity = ''high'',
                          d_Position = span pattern, d_Pattern = pattern,
                          d_Message = ''Polynomial ambiguity detected: '' @ complexityStr,
                          d_Example = ''aaaaaaax'',
                          d_Suggestion = ''Consolidate overlapping quantifiers ''
                            @ ''or use possessive quantifiers'',
                          d_Complexity = complexity\<rparr>])
                else issues)
       (findOverlappingQuantifierSequences L re) []"

definition AnalyzePattern :: "syntax_lib \<Rightarrow> Regexp \<Rightarrow> string \<Rightarrow> error + detector_Issue list" where
  "AnalyzePattern L re pattern =
     (case BuildNFA re of
        Inl err \<Rightarrow> Inl err
      | Inr nfa \<Rightarrow>
          (let issues = [];
               edaIssues = detectEDA L nfa re pattern;
               issues = issues @ edaIssues;
               idaIssues = detectIDA L nfa re pattern;
               issues = issues @ idaIssues
           in Inr issues))"

definition ComputeAmbiguityDegree :: "syntax_lib \<Rightarrow> Regexp \<Rightarrow> int \<times> bool" where
  "ComputeAmbiguityDegree L re =
     (let nested = findNestedQuantifiersInNFA L re
      in if length nested > 0 then (int (length nested), True)
         else (let sequences = findOverlappingQuantifierSequences L re;
                   maxDegree = fold (\<lambda>seq maxDegree.
                                       if int (length seq) > maxDegree then int (length seq)
                                       else maxDegree) sequences 0
               in if maxDegree \<ge> 2 then (maxDegree, False) else (1, False)))"

section \<open>Package detector: the fast checks\<close>

record Detector =
  det_opts :: detector_Options
  det_parser :: Parser

definition NewDetector :: "detector_Options \<Rightarrow> Detector" where
  "NewDetector opts = \<lparr>det_opts = opts, det_parser = NewParser\<rparr>"

definition generateNestedQuantifierExample :: "Regexp \<Rightarrow> string" where
  "generateNestedQuantifierExample node =
     (case Op node of OpStar \<Rightarrow> ''aaaaaa'' | OpPlus \<Rightarrow> ''aaaaaa'' | OpQuest \<Rightarrow> ''a''
      | _ \<Rightarrow> ''test'')"

definition detectNestedQuantifiers ::
  "syntax_lib \<Rightarrow> Detector \<Rightarrow> Regexp \<Rightarrow> string \<Rightarrow> detector_Issue list" where
  "detectNestedQuantifiers L d re pattern =
     Walk re
       (\<lambda>node issues.
          if \<not> IsQuantifier node then (True, issues)
          else (True,
                if length (Sub node) > 0
                then fold (\<lambda>sub issues.
                             if HasQuantifier sub
                             then issues @
                               [\<lparr>d_Type = ''nested_quantifiers'', d_Severity = ''critical'',
                                 d_Position = span pattern,
                                 d_Pattern = syntax_String L node,
                                 d_Message = ''Nested quantifiers detected: ''
                                   @ syntax_String L node,
                                 d_Example = generateNestedQuantifierExample node,
                                 d_Suggestion =
                                   ''Remove nesting: simplify to a single quantifier'',
                                 d_Complexity = 90\<rparr>]
                             else issues)
                       (Sub node) issues
                else issues))
       []"

text \<open>The two loops of \<open>branchesOverlap\<close> that strip capture groups.\<close>

fun unwrapCapture :: "Regexp \<Rightarrow> Regexp" where
  "unwrapCapture (Regexp OpCapture (sub # subs) rs mn mx) = unwrapCapture sub"
| "unwrapCapture re = re"

lemma size_unwrapCapture: "size (unwrapCapture re) \<le> size re"
  by (induction re rule: unwrapCapture.induct) simp_all

lemma size_first_Sub: "length (Sub re) > 0 \<Longrightarrow> size (hd (Sub re)) < size re"
  by (cases re; cases "Sub re") simp_all

function branchesOverlap :: "syntax_lib \<Rightarrow> Regexp \<Rightarrow> Regexp \<Rightarrow> bool" where
  "branchesOverlap L a0 b0 =
     (let a = unwrapCapture a0;
          b = unwrapCapture b0;
          aStr = syntax_String L a;
          bStr = syntax_String L b
      in if length aStr > 0 \<and> length bStr > 0 \<and> (prefix bStr aStr \<or> prefix aStr bStr)
         then True
         else if Op a = OpLiteral \<and> Op b = OpLiteral
                 \<and> length (Rune a) > 0 \<and> length (Rune b) > 0 \<and> hd (Rune a) = hd (Rune b)
         then True
         else if Op a = OpConcat \<and> Op b = OpConcat \<and> length (Sub a) > 0 \<and> length (Sub b) > 0
         then branchesOverlap L (hd (Sub a)) (hd (Sub b))
         else if Op a = OpConcat \<and> Op b = OpLiteral \<and> length (Sub a) > 0
         then branchesOverlap L (hd (Sub a)) b
         else if Op a = OpLiteral \<and> Op b = OpConcat \<and> length (Sub b) > 0
         then branchesOverlap L a (hd (Sub b))
         else if (Op a = OpAnyChar \<or> Op a = OpCharClass)
                 \<and> (Op b = OpAnyChar \<or> Op b = OpCharClass)
         then True
         else False)"
  by pat_completeness auto
termination
proof (relation "measure (\<lambda>(L, a, b). size a + size b)", goal_cases)
  case 1
  show ?case by simp
next
  case (2 L a0 b0 a b aStr bStr)
  then have "size (hd (Sub a)) < size a0" "size (hd (Sub b)) < size b0"
    using size_first_Sub [of a] size_first_Sub [of b]
      size_unwrapCapture [of a0] size_unwrapCapture [of b0] by simp_all
  then show ?case by simp
next
  case (3 L a0 b0 a b aStr bStr)
  then have "size (hd (Sub a)) < size a0" "size b \<le> size b0"
    using size_first_Sub [of a] size_unwrapCapture [of a0] size_unwrapCapture [of b0]
    by simp_all
  then show ?case by simp
next
  case (4 L a0 b0 a b aStr bStr)
  then have "size a \<le> size a0" "size (hd (Sub b)) < size b0"
    using size_first_Sub [of b] size_unwrapCapture [of a0] size_unwrapCapture [of b0]
    by simp_all
  then show ?case by simp
qed

declare branchesOverlap.simps [simp del]

text \<open>
  The nested loops of \<open>detectOverlappingAlternations\<close> over the branches of one
  alternation. The inner loop, over the branches \<open>j > i\<close>, appends the issue at the
  first branch that overlaps branch \<open>i\<close> and is left there (\<open>break\<close>); the outer
  loop then goes on with the next \<open>i\<close>.
\<close>

fun overlap_inner ::
  "(Regexp \<Rightarrow> Regexp \<Rightarrow> bool) \<Rightarrow> detector_Issue \<Rightarrow> Regexp \<Rightarrow> Regexp list
     \<Rightarrow> detector_Issue list \<Rightarrow> detector_Issue list" where
  "overlap_inner overlap issue a [] issues = issues"
| "overlap_inner overlap issue a (b # bs) issues =
     (if overlap a b then issues @ [issue] else overlap_inner overlap issue a bs issues)"

fun overlap_outer ::
  "(Regexp \<Rightarrow> Regexp \<Rightarrow> bool) \<Rightarrow> detector_Issue \<Rightarrow> Regexp list
     \<Rightarrow> detector_Issue list \<Rightarrow> detector_Issue list" where
  "overlap_outer overlap issue [] issues = issues"
| "overlap_outer overlap issue (a # rest) issues =
     overlap_outer overlap issue rest (overlap_inner overlap issue a rest issues)"

definition detectOverlappingAlternations ::
  "syntax_lib \<Rightarrow> Detector \<Rightarrow> Regexp \<Rightarrow> string \<Rightarrow> detector_Issue list" where
  "detectOverlappingAlternations L d re pattern =
     Walk re
       (\<lambda>node issues.
          if \<not> IsAlternation node then (True, issues)
          else (True,
                if length (Sub node) \<ge> 2
                then overlap_outer (branchesOverlap L)
                       \<lparr>d_Type = ''overlapping_alternation'', d_Severity = ''high'',
                        d_Position = span pattern, d_Pattern = syntax_String L node,
                        d_Message = ''Overlapping alternation branches: ''
                          @ syntax_String L node,
                        d_Example = ''ababababx'',
                        d_Suggestion = ''Reorder branches or use atomic grouping'',
                        d_Complexity = 70\<rparr>
                       (Sub node) issues
                else issues))
       []"

text \<open>\<open>strings.Contains\<close>: the second string occurs in the first.\<close>

fun strings_Contains :: "string \<Rightarrow> string \<Rightarrow> bool" where
  "strings_Contains [] substr = (substr = [])"
| "strings_Contains (c # s) substr = (prefix substr (c # s) \<or> strings_Contains s substr)"

definition backslash :: char where
  "backslash = CHR 0x5C"

definition dangerousPatterns :: "string list" where
  "dangerousPatterns =
     [''a*a+'', ''a+a*'', ''a*a*'',
      backslash # ''d*'' @ backslash # ''d+'', backslash # ''d+'' @ backslash # ''d*'',
      backslash # ''d*'' @ backslash # ''d*'',
      backslash # ''w*'' @ backslash # ''w+'', backslash # ''w+'' @ backslash # ''w*'',
      backslash # ''w*'' @ backslash # ''w*'',
      ''.*.'', ''.+.'', ''.*.*'']"

definition detectDangerousPatterns ::
  "Detector \<Rightarrow> Regexp \<Rightarrow> string \<Rightarrow> detector_Issue list" where
  "detectDangerousPatterns d re pattern =
     (let issues = [];
          issues =
            (if strings_Contains pattern ''*.*'' \<or> strings_Contains pattern ''+.+''
             then issues @
               [\<lparr>d_Type = ''polynomial_backtracking'', d_Severity = ''high'',
                 d_Position = span pattern, d_Pattern = pattern,
                 d_Message = ''Overlapping unbounded quantifiers detected'',
                 d_Example = ''aaaaaaaax'',
                 d_Suggestion = ''Use possessive quantifiers or atomic grouping'',
                 d_Complexity = 60\<rparr>]
             else issues)
      in fold (\<lambda>dp issues.
                 if strings_Contains pattern dp
                 then issues @
                   [\<lparr>d_Type = ''polynomial_backtracking'', d_Severity = ''high'',
                     d_Position = span pattern, d_Pattern = dp,
                     d_Message = ''Potentially dangerous pattern detected: '' @ dp,
                     d_Example = ''aaaaaaax'',
                     d_Suggestion = ''Consolidate or reorder quantifiers'',
                     d_Complexity = 65\<rparr>]
                 else issues)
           dangerousPatterns issues)"

definition runFastChecks ::
  "syntax_lib \<Rightarrow> Detector \<Rightarrow> Regexp \<Rightarrow> string \<Rightarrow> detector_Issue list" where
  "runFastChecks L d re pattern =
     (let issues = [];
          issues =
            (if int (length pattern) > 10000
             then issues @
               [\<lparr>d_Type = ''pattern_too_long'', d_Severity = ''high'',
                 d_Position = span pattern, d_Pattern = pattern,
                 d_Message = ''Pattern exceeds maximum length (10000 characters): ''
                   @ Sprint_d (int (length pattern)) @ '' characters'',
                 d_Example = '''',
                 d_Suggestion =
                   ''Consider breaking the pattern into multiple smaller patterns'',
                 d_Complexity = 0\<rparr>]
             else issues);
          nestingDepth = GetNestingDepth re;
          issues =
            (if nestingDepth > 5
             then issues @
               [\<lparr>d_Type = ''excessive_nesting'', d_Severity = ''high'',
                 d_Position = span pattern, d_Pattern = pattern,
                 d_Message = ''Excessive quantifier nesting depth: ''
                   @ Sprint_d nestingDepth @ '' (threshold: 5)'',
                 d_Example = ''aaa'',
                 d_Suggestion = ''Reduce nesting depth by simplifying quantifiers'',
                 d_Complexity = nestingDepth * 15\<rparr>]
             else issues);
          quantifierCount = CountQuantifiers re;
          issues =
            (if quantifierCount > 20
             then issues @
               [\<lparr>d_Type = ''too_many_quantifiers'', d_Severity = ''medium'',
                 d_Position = span pattern, d_Pattern = pattern,
                 d_Message = ''Excessive quantifiers: ''
                   @ Sprint_d quantifierCount @ '' (threshold: 20)'',
                 d_Example = '''',
                 d_Suggestion = ''Simplify the pattern to reduce quantifier count'',
                 d_Complexity = quantifierCount * 3\<rparr>]
             else issues);
          nestedIssues = detectNestedQuantifiers L d re pattern;
          issues = issues @ nestedIssues;
          alternationIssues = detectOverlappingAlternations L d re pattern;
          issues = issues @ alternationIssues;
          dangerousIssues = detectDangerousPatterns d re pattern;
          issues = issues @ dangerousIssues
      in issues)"

definition runBalancedChecks ::
  "syntax_lib \<Rightarrow> Detector \<Rightarrow> Regexp \<Rightarrow> string \<Rightarrow> detector_Issue list" where
  "runBalancedChecks L d re pattern =
     (case AnalyzePattern L re pattern of Inl err \<Rightarrow> [] | Inr issues \<Rightarrow> issues)"

definition runThoroughChecks ::
  "syntax_lib \<Rightarrow> Detector \<Rightarrow> Regexp \<Rightarrow> string \<Rightarrow> detector_Issue list" where
  "runThoroughChecks L d re pattern = []"

definition Detect ::
  "syntax_lib \<Rightarrow> Detector \<Rightarrow> Regexp \<Rightarrow> string \<Rightarrow> error + detector_Issue list" where
  "Detect L d re pattern =
     (let issues = [];
          issues =
            (if d_Mode (det_opts d) = Fast
             then issues @ runFastChecks L d re pattern
             else if d_Mode (det_opts d) = Balanced
             then (issues @ runFastChecks L d re pattern) @ runBalancedChecks L d re pattern
             else if d_Mode (det_opts d) = Thorough
             then ((issues @ runFastChecks L d re pattern) @ runBalancedChecks L d re pattern)
                    @ runThoroughChecks L d re pattern
             else issues)
      in Inr issues)"

section \<open>Package regret: pump patterns of the public interface\<close>

record PumpPattern =
  Prefix :: string
  Pumps :: "string list"
  Suffix :: string
  Interleave :: bool
  Description :: string

text \<open>
  \<open>PumpPattern.Generate\<close>. The counting loop \<open>for i := 0; i < size; i++\<close> runs its
  body \<open>size\<close> times (\<open>size > 0\<close> there), written \<open>body ^^ nat size\<close>; the loop over
  the slice \<open>p.Pumps\<close> is a \<open>fold\<close> from the left.
\<close>

definition Generate :: "PumpPattern \<Rightarrow> int \<Rightarrow> string" where
  "Generate p sz =
     (if sz \<le> 0 then Prefix p @ Suffix p
      else
        let result = Prefix p;
            result =
              (if Interleave p
               then ((\<lambda>r. fold (\<lambda>pump r. r @ pump) (Pumps p) r) ^^ nat sz) result
               else fold (\<lambda>pump r. ((\<lambda>r. r @ pump) ^^ nat sz) r) (Pumps p) result)
        in result @ Suffix p)"

section \<open>Package regret: complexity analysis\<close>

record pumpGen =
  pg_opts :: Options
  pg_impl :: Generator
  pg_parser :: Parser

definition newPumpGenerator :: "Options \<Rightarrow> pumpGen" where
  "newPumpGenerator opts =
     \<lparr>pg_opts = opts,
      pg_impl = NewGenerator (Some \<lparr>PumpSize = 10, MaxPumpSize = 100, IncludeFailure = True\<rparr>),
      pg_parser = NewParser\<rparr>"

definition generate :: "syntax_lib \<Rightarrow> pumpGen \<Rightarrow> string \<Rightarrow> error + PumpPattern" where
  "generate L g pattern =
     (case Parse L (pg_parser g) pattern of
        Inl err \<Rightarrow> Inl err
      | Inr re \<Rightarrow>
          (case pump_Generate L (pg_impl g) re pattern of
             Inl err \<Rightarrow> Inl err
           | Inr results \<Rightarrow>
               (case results of
                  [] \<Rightarrow> Inl ErrNoPumpPattern
                | result # _ \<Rightarrow>
                    Inr \<lparr>Prefix = BaseString result, Pumps = [PumpComponent result],
                         Suffix = FailSuffix result, Interleave = False,
                         Description = p_Description result\<rparr>)))"

definition complexityFromString :: "string \<Rightarrow> Complexity" where
  "complexityFromString s =
     (if s = ''O(1)'' then Constant
      else if s = ''O(n)'' then Linear
      else if s = O_n2 then Quadratic
      else if s = O_n3 then Cubic
      else if s = ''O(n^k)'' then Polynomial
      else if s = ''O(2^n)'' then Exponential
      else Unknown)"

definition getMetricInt :: "(string \<rightharpoonup> metric) \<Rightarrow> string \<Rightarrow> int" where
  "getMetricInt metrics key =
     (case metrics key of Some (MInt intVal) \<Rightarrow> intVal | _ \<Rightarrow> 0)"

record anlz =
  anlz_opts :: Options
  anlz_impl :: Analyzer
  anlz_parser :: Parser

definition newAnalyzer :: "Options \<Rightarrow> anlz" where
  "newAnalyzer opts =
     \<lparr>anlz_opts = opts,
      anlz_impl = NewAnalyzer (Some \<lparr>a_Timeout = Timeout opts,
                                     a_MaxComplexityScore = MaxComplexityScore opts\<rparr>),
      anlz_parser = NewParser\<rparr>"

text \<open>
  \<open>anlz.analyze\<close>. The pump is generated only when the score is at least 50; an
  error of the generator leaves both pump fields at their zero values.
\<close>

definition analyze :: "syntax_lib \<Rightarrow> anlz \<Rightarrow> string \<Rightarrow> error + ComplexityScore" where
  "analyze L a pattern =
     (case Parse L (anlz_parser a) pattern of
        Inl err \<Rightarrow> Inl err
      | Inr re \<Rightarrow>
          (case Analyze L (anlz_impl a) re pattern of
             Inl err \<Rightarrow> Inl err
           | Inr result \<Rightarrow>
               (let complexity = complexityFromString (a_Complexity result);
                    (pumpComponents, worstCaseInput) =
                      (if a_Score result \<ge> 50
                       then (case generate L (newPumpGenerator (anlz_opts a)) pattern of
                               Inr pump \<Rightarrow>
                                 (Pumps pump,
                                  if length (Pumps pump) > 0 then Generate pump 20 else '''')
                             | Inl err \<Rightarrow> ([], ''''))
                       else ([], ''''))
                in Inr \<lparr>Overall = a_Score result,
                        TimeComplexity = complexity,
                        SpaceComplexity = Linear,
                        HasEDA = (a_TimeClass result = ''exponential''),
                        HasIDA = (a_TimeClass result = ''polynomial''),
                        PolynomialDegree = a_Degree result,
                        Metrics = \<lparr>NestingDepth = getMetricInt (a_Metrics result) ''nesting_depth'',
                                   QuantifierCount =
                                     getMetricInt (a_Metrics result) ''quantifier_count'',
                                   AlternationCount =
                                     getMetricInt (a_Metrics result) ''alternations''\<rparr>,
                        WorstCaseInput = worstCaseInput,
                        PumpComponents = pumpComponents,
                        Explanation = a_Description result,
                        Safe = (a_Score result < 50)\<rparr>)))"

definition AnalyzeComplexity :: "syntax_lib \<Rightarrow> string \<Rightarrow> error + ComplexityScore" where
  "AnalyzeComplexity L pattern =
     (let opts = ThoroughOptions\<lparr>Checks := CheckAll\<rparr>;
          a = newAnalyzer opts
      in analyze L a pattern)"

section \<open>Package regret: validation\<close>

definition issueTypeFromString :: "string \<Rightarrow> IssueType" where
  "issueTypeFromString s =
     (if s = ''nested_quantifiers'' then NestedQuantifiers
      else if s = ''overlapping_alternation'' then OverlappingAlternation
      else if s = ''exponential_backtracking'' then ExponentialBacktracking
      else if s = ''polynomial_backtracking'' then PolynomialBacktracking
      else AmbiguousPattern)"

definition severityFromString :: "string \<Rightarrow> Severity" where
  "severityFromString s =
     (if s = ''critical'' then Critical
      else if s = ''high'' then High
      else if s = ''medium'' then Medium
      else if s = ''low'' then Low
      else Info)"

definition convertIssue :: "detector_Issue \<Rightarrow> Issue" where
  "convertIssue iss =
     \<lparr>Type = issueTypeFromString (d_Type iss),
      Severity = severityFromString (d_Severity iss),
      Position = \<lparr>Start = d_Start (d_Position iss), End = d_End (d_Position iss),
                  Line = d_Line (d_Position iss), Column = d_Column (d_Position iss)\<rparr>,
      Pattern = d_Pattern iss,
      Message = d_Message iss,
      Example = d_Example iss,
      Suggestion = d_Suggestion iss,
      Complexity = d_Complexity iss,
      Details = Map.empty\<rparr>"

definition convertIssues :: "detector_Issue list \<Rightarrow> Issue list" where
  "convertIssues internal = map convertIssue internal"

record validator =
  v_opts :: Options
  v_parser :: Parser
  v_detect :: Detector

definition newValidator :: "Options \<Rightarrow> validator" where
  "newValidator opts =
     (let detectorOpts = \<lparr>d_Mode = Mode opts, d_Checks = Checks opts\<rparr>
      in \<lparr>v_opts = opts, v_parser = NewParser, v_detect = NewDetector detectorOpts\<rparr>)"

definition validate :: "syntax_lib \<Rightarrow> validator \<Rightarrow> string \<Rightarrow> error + Issue list" where
  "validate L v pattern =
     (case Parse L (v_parser v) pattern of
        Inl err \<Rightarrow> Inl err
      | Inr re \<Rightarrow>
          (case Detect L (v_detect v) re pattern of
             Inl err \<Rightarrow> Inl err
           | Inr internalIssues \<Rightarrow> Inr (convertIssues internalIssues)))"

text \<open>\<open>ValidateWithOptions\<close>; a nil \<open>*Options\<close> is \<open>None\<close>.\<close>

definition ValidateWithOptions ::
  "syntax_lib \<Rightarrow> string \<Rightarrow> Options option \<Rightarrow> error + Issue list" where
  "ValidateWithOptions L pattern opts =
     (let opts = (case opts of None \<Rightarrow> DefaultOptions | Some opts \<Rightarrow> opts)
      in if AllowUnsafe opts then Inr []
         else if MaxPatternLength opts > 0 \<and> int (length pattern) > MaxPatternLength opts
         then Inl (ErrPatternTooLong (int (length pattern)) (MaxPatternLength opts))
         else validate L (newValidator opts) pattern)"

definition Validate :: "syntax_lib \<Rightarrow> string \<Rightarrow> error + Issue list" where
  "Validate L pattern = ValidateWithOptions L pattern (Some DefaultOptions)"

definition IsSafe :: "syntax_lib \<Rightarrow> string \<Rightarrow> bool" where
  "IsSafe L pattern =
     (let opts = FastOptions\<lparr>StrictMode := True\<rparr>
      in case ValidateWithOptions L pattern (Some opts) of
           Inl err \<Rightarrow> False
         | Inr issues \<Rightarrow> length issues = 0)"

section \<open>A fragment of regexp/syntax for the examples\<close>

text \<open>
  The closed examples below need a concrete library. This fragment lists the trees
  that \<open>syntax.Parse\<close> builds with the \<open>Perl\<close> flags for a few patterns, the error
  it reports for the unbalanced bracket, and prints the operators that occur in
  those trees. \<open>Simplify\<close> leaves each of these trees as it is. A pattern outside
  the list is not used anywhere.
\<close>

definition mk_Literal :: "string \<Rightarrow> Regexp" where
  "mk_Literal s = Regexp OpLiteral [] (map of_char s) 0 0"

definition mk_Capture :: "Regexp \<Rightarrow> Regexp" where
  "mk_Capture re = Regexp OpCapture [re] [] 0 0"

definition mk_Star :: "Regexp \<Rightarrow> Regexp" where
  "mk_Star re = Regexp OpStar [re] [] 0 0"

definition mk_Plus :: "Regexp \<Rightarrow> Regexp" where
  "mk_Plus re = Regexp OpPlus [re] [] 0 0"

definition mk_Concat :: "Regexp list \<Rightarrow> Regexp" where
  "mk_Concat res = Regexp OpConcat res [] 0 0"

definition mk_Alternate :: "Regexp list \<Rightarrow> Regexp" where
  "mk_Alternate res = Regexp OpAlternate res [] 0 0"

fun sample_join :: "string list \<Rightarrow> string" where
  "sample_join [] = ''''"
| "sample_join [s] = s"
| "sample_join (s # ss) = s @ ''|'' @ sample_join ss"

fun sample_String :: "Regexp \<Rightarrow> string" where
  "sample_String (Regexp op subs rs mn mx) =
     (case op of
        OpLiteral \<Rightarrow> map char_of rs
      | OpCapture \<Rightarrow> ''('' @ concat (map sample_String subs) @ '')''
      | OpStar \<Rightarrow> concat (map sample_String subs) @ ''*''
      | OpPlus \<Rightarrow> concat (map sample_String subs) @ ''+''
      | OpQuest \<Rightarrow> concat (map sample_String subs) @ ''?''
      | OpConcat \<Rightarrow> concat (map sample_String subs)
      | OpAlternate \<Rightarrow> sample_join (map sample_String subs)
      | _ \<Rightarrow> '''')"

definition sample_Parse :: "string \<Rightarrow> nat \<Rightarrow> string + Regexp" where
  "sample_Parse pattern fl =
     (if pattern = ''hello'' then Inr (mk_Literal ''hello'')
      else if pattern = ''(a+)+''
      then Inr (mk_Plus (mk_Capture (mk_Plus (mk_Literal ''a''))))
      else if pattern = ''(a*)*''
      then Inr (mk_Star (mk_Capture (mk_Star (mk_Literal ''a''))))
      else if pattern = ''a*a*''
      then Inr (mk_Concat [mk_Star (mk_Literal ''a''), mk_Star (mk_Literal ''a'')])
      else if pattern = ''(a+)+b*c*''
      then Inr (mk_Concat [mk_Plus (mk_Capture (mk_Plus (mk_Literal ''a''))),
                           mk_Star (mk_Literal ''b''), mk_Star (mk_Literal ''c'')])
      else if pattern = ''(a)|(a)|(a)''
      then Inr (mk_Alternate [mk_Capture (mk_Literal ''a''), mk_Capture (mk_Literal ''a''),
                              mk_Capture (mk_Literal ''a'')])
      else if pattern = ''(a|b+)*c*d*''
      then Inr (mk_Concat [mk_Star (mk_Capture (mk_Alternate [mk_Literal ''a'',
                                                                mk_Plus (mk_Literal ''b'')])),
                           mk_Star (mk_Literal ''c''), mk_Star (mk_Literal ''d'')])
      else if pattern = ''[''
      then Inl ''missing closing ]: `[`''
      else Inl ''not a pattern of the fragment'')"

definition sample_lib :: syntax_lib where
  "sample_lib =
     \<lparr>syntax_Parse = sample_Parse, syntax_Simplify = (\<lambda>re. re),
      syntax_String = sample_String\<rparr>"

section \<open>Notions used in the statements\<close>

text \<open>The nodes of a tree in the order in which \<open>Walk\<close> reaches them.\<close>

fun nodes :: "Regexp \<Rightarrow> Regexp list" where
  "nodes (Regexp op subs rs mn mx) = Regexp op subs rs mn mx # concat (map nodes subs)"

text \<open>The time classes that the scorer assigns before its final step.\<close>

definition known_class :: "string \<Rightarrow> bool" where
  "known_class c = (c = ''linear'' \<or> c = ''polynomial'' \<or> c = ''exponential'')"

text \<open>The score record as the four aspects leave it, before \<open>determineComplexity\<close>.\<close>

definition scored :: "syntax_lib \<Rightarrow> Regexp \<Rightarrow> analyzer_ComplexityScore" where
  "scored L re =
     analyzePattern L re (analyzeAlternations re (analyzeQuantifiers L re (analyzeNesting re
       \<lparr>a_Score = 0, a_Complexity = ''O(n)'', a_Description = ''Linear time complexity'',
        a_TimeClass = ''linear'', a_Degree = 1, a_Issues = [], a_Metrics = Map.empty\<rparr>)))"

text \<open>
  The epsilon edges of an automaton, from the \<open>EpsilonTo\<close> lists of its states; a
  state that lies on an epsilon cycle; a state from which an epsilon cycle can be
  reached; and, for a search that has the states \<open>visited\<close> on its path, a state
  from which the path or an epsilon cycle can be reached.
\<close>

definition eps_edges :: "NFA \<Rightarrow> (nat \<times> nat) set" where
  "eps_edges nfa =
     {(p, q). p < length (nfa_States nfa) \<and> q \<in> set (s_EpsilonTo (nfa_States nfa ! p))}"

definition on_eps_cycle :: "NFA \<Rightarrow> nat \<Rightarrow> bool" where
  "on_eps_cycle nfa p = ((p, p) \<in> (eps_edges nfa)\<^sup>+)"

definition reaches_eps_cycle :: "NFA \<Rightarrow> nat \<Rightarrow> bool" where
  "reaches_eps_cycle nfa p = (\<exists>q. (p, q) \<in> (eps_edges nfa)\<^sup>* \<and> on_eps_cycle nfa q)"

definition cycle_ahead :: "NFA \<Rightarrow> nat set \<Rightarrow> nat \<Rightarrow> bool" where
  "cycle_ahead nfa visited state =
     (\<exists>q. (state, q) \<in> (eps_edges nfa)\<^sup>* \<and> (q \<in> visited \<or> on_eps_cycle nfa q))"

text \<open>
  The automaton that \<open>BuildNFA\<close> makes of \<open>(a*)*\<close>: states 0 and 1 are the start and
  the accepting state, 2 and 3 the loop of the outer star, 4 and 5 the loop of the
  inner star. The only transition that reads a letter goes from 4 to 5.
\<close>

definition sample_eps :: "nat \<Rightarrow> nat \<Rightarrow> Transition" where
  "sample_eps p q =
     \<lparr>t_From = p, t_To = q, t_Label = \<lparr>l_Type = TransitionEpsilon\<rparr>, t_IsEpsilon = True\<rparr>"

definition sample_letter :: "nat \<Rightarrow> nat \<Rightarrow> Transition" where
  "sample_letter p q =
     \<lparr>t_From = p, t_To = q, t_Label = \<lparr>l_Type = TransitionLiteral\<rparr>, t_IsEpsilon = False\<rparr>"

definition nested_stars :: NFA where
  "nested_stars =
     \<lparr>nfa_Start = Some 0, nfa_Accept = Some 1,
      nfa_States =
        [\<lparr>s_ID = 0, s_IsAccept = False,
          s_Transitions = [sample_eps 0 2, sample_eps 0 1], s_EpsilonTo = [2, 1]\<rparr>,
         \<lparr>s_ID = 1, s_IsAccept = True, s_Transitions = [], s_EpsilonTo = []\<rparr>,
         \<lparr>s_ID = 2, s_IsAccept = False,
          s_Transitions = [sample_eps 2 4, sample_eps 2 3], s_EpsilonTo = [4, 3]\<rparr>,
         \<lparr>s_ID = 3, s_IsAccept = False,
          s_Transitions = [sample_eps 3 2, sample_eps 3 1], s_EpsilonTo = [2, 1]\<rparr>,
         \<lparr>s_ID = 4, s_IsAccept = False,
          s_Transitions = [sample_letter 4 5], s_EpsilonTo = []\<rparr>,
         \<lparr>s_ID = 5, s_IsAccept = False,
          s_Transitions = [sample_eps 5 4, sample_eps 5 3], s_EpsilonTo = [4, 3]\<rparr>],
      nfa_StateCount = 6,
      nfa_Transitions =
        (\<lambda>_. [])
          (0 := [sample_eps 0 2, sample_eps 0 1],
           2 := [sample_eps 2 4, sample_eps 2 3],
           4 := [sample_letter 4 5],
           5 := [sample_eps 5 4, sample_eps 5 3],
           3 := [sample_eps 3 2, sample_eps 3 1])\<rparr>"

chapter \<open>Properties\<close>

section \<open>Walking a tree\<close>

lemma fold_Walk_all:
  assumes "\<And>x s. x \<in> set subs \<Longrightarrow> Walk x v s = fold f (nodes x) s"
  shows "fold (\<lambda>sub s'. Walk sub v s') subs s = fold f (concat (map nodes subs)) s"
  using assms by (induction subs arbitrary: s) simp_all

lemma Walk_all:
  assumes "\<And>n s. fst (v n s)"
  shows "Walk re v s = fold (\<lambda>n s. snd (v n s)) (nodes re) s"
proof (induction re arbitrary: s)
  case (Regexp op subs rs mn mx)
  have "fold (\<lambda>sub s'. Walk sub v s') subs t
          = fold (\<lambda>n s. snd (v n s)) (concat (map nodes subs)) t" for t
    by (rule fold_Walk_all) (rule Regexp.IH)
  with assms show ?case by (simp add: Let_def)
qed

lemma fold_Walk_flag:
  assumes "\<And>x b. x \<in> set subs \<Longrightarrow>
             Walk x (\<lambda>node r. if P node then (False, True) else (True, r)) b
               = (b \<or> list_ex P (nodes x))"
  shows "fold (\<lambda>sub s'. Walk sub (\<lambda>node r. if P node then (False, True) else (True, r)) s')
           subs b
         = (b \<or> list_ex P (concat (map nodes subs)))"
  using assms by (induction subs arbitrary: b) (auto simp: list_ex_iff)

lemma Walk_flag:
  "Walk re (\<lambda>node r. if P node then (False, True) else (True, r)) b
     = (b \<or> list_ex P (nodes re))"
proof (induction re arbitrary: b)
  case (Regexp op subs rs mn mx)
  have "fold (\<lambda>sub s'. Walk sub (\<lambda>node r. if P node then (False, True) else (True, r)) s')
           subs c
         = (c \<or> list_ex P (concat (map nodes subs)))" for c
    by (rule fold_Walk_flag) (rule Regexp.IH)
  then show ?case by (simp add: Let_def)
qed

lemma hasNestedQuantifiers_nodes:
  "hasNestedQuantifiers re = list_ex (\<lambda>n. isQuantifier n \<and> isTrulyNested n) (nodes re)"
  by (simp add: hasNestedQuantifiers_def walkRegexp_def Walk_flag)

lemma nesting_fold:
  "snd (fold (\<lambda>node (maxDepth, nestedCount).
           if isQuantifier node
           then (if getQuantifierDepth node > maxDepth then getQuantifierDepth node
                 else maxDepth,
                 if isTrulyNested node then nestedCount + 1 else nestedCount)
           else (maxDepth, nestedCount)) ns (m, c))
     = c + int (length (filter (\<lambda>n. isQuantifier n \<and> isTrulyNested n) ns))"
  by (induction ns arbitrary: m c) simp_all


section \<open>Pump patterns\<close>

lemma append_pump_length:
  "length (((\<lambda>r. r @ pump) ^^ n) r) = length r + n * length pump"
  by (induction n) (simp_all add: algebra_simps)

lemma concat_pumps_length:
  "length (fold (\<lambda>pump r. ((\<lambda>r. r @ pump) ^^ n) r) ps r)
     = length r + n * sum_list (map length ps)"
  by (induction ps arbitrary: r) (simp_all add: append_pump_length algebra_simps)

text \<open>
  C8. With \<open>Interleave = false\<close>, \<open>Generate 0\<close> is exactly \<open>Prefix + Suffix\<close>, and for
  every \<open>n \<ge> 0\<close> the length of \<open>Generate n\<close> is
  \<open>|Prefix| + n * (sum of the lengths of the pump components) + |Suffix|\<close>.
\<close>

theorem Generate_concatenated:
  "\<not> Interleave p \<Longrightarrow>
     Generate p 0 = Prefix p @ Suffix p \<and>
     (\<forall>n\<ge>0. int (length (Generate p n))
        = int (length (Prefix p)) + n * int (sum_list (map length (Pumps p)))
          + int (length (Suffix p)))"
proof (intro conjI allI impI)
  show "Generate p 0 = Prefix p @ Suffix p"
    by (simp add: Generate_def)
next
  fix n :: int
  assume il: "\<not> Interleave p" and n: "0 \<le> n"
  show "int (length (Generate p n))
           = int (length (Prefix p)) + n * int (sum_list (map length (Pumps p)))
             + int (length (Suffix p))"
  proof (cases "n = 0")
    case True
    then show ?thesis by (simp add: Generate_def)
  next
    case False
    with n have pos: "\<not> n \<le> 0" by simp
    from n have "int (nat n) = n" by simp
    with pos il show ?thesis
      by (simp add: Generate_def Let_def concat_pumps_length)
  qed
qed

theorem Generate_concatenated_witness:
  "\<not> Interleave \<lparr>Prefix = ''p'', Pumps = [''a'', ''bc''], Suffix = ''x'',
       Interleave = False, Description = ''''\<rparr> \<and>
   Generate \<lparr>Prefix = ''p'', Pumps = [''a'', ''bc''], Suffix = ''x'',
       Interleave = False, Description = ''''\<rparr> 0 = ''px'' \<and>
   Generate \<lparr>Prefix = ''p'', Pumps = [''a'', ''bc''], Suffix = ''x'',
       Interleave = False, Description = ''''\<rparr> 2 = ''paabcbcx'' \<and>
   int (length (Generate \<lparr>Prefix = ''p'', Pumps = [''a'', ''bc''], Suffix = ''x'',
       Interleave = False, Description = ''''\<rparr> 2)) = 1 + 2 * 3 + 1"
  using Generate_concatenated
    [of "\<lparr>Prefix = ''p'', Pumps = [''a'', ''bc''], Suffix = ''x'',
          Interleave = False, Description = ''''\<rparr>"]
  by (simp add: Generate_def numeral_2_eq_2)

section \<open>The scorer: time class, floor and cap\<close>

lemma analyzeNesting_TimeClass:
  "a_TimeClass (analyzeNesting re s) = ''exponential''
     \<or> a_TimeClass (analyzeNesting re s) = a_TimeClass s"
  by (simp add: analyzeNesting_def Let_def split: prod.splits)

lemma analyzeQuantifiers_TimeClass:
  "a_TimeClass (analyzeQuantifiers L re s) =
     (if findOverlappingQuantifiers L re \<noteq> [] \<and> a_TimeClass s = ''linear''
      then ''polynomial'' else a_TimeClass s)"
  by (simp add: analyzeQuantifiers_def Let_def)

lemma analyzeAlternations_TimeClass:
  "a_TimeClass (analyzeAlternations re s) = a_TimeClass s"
  by (simp add: analyzeAlternations_def Let_def split: prod.splits)

lemma analyzePattern_TimeClass:
  "a_TimeClass (analyzePattern L re s) = a_TimeClass s"
  by (simp add: analyzePattern_def Let_def)

lemma analyzeAlternations_Degree:
  "a_Degree (analyzeAlternations re s) = a_Degree s"
  by (simp add: analyzeAlternations_def Let_def split: prod.splits)

lemma analyzePattern_Degree:
  "a_Degree (analyzePattern L re s) = a_Degree s"
  by (simp add: analyzePattern_def Let_def)

lemma determineComplexity_Degree:
  "a_Degree (determineComplexity s) = a_Degree s"
  by (simp add: determineComplexity_def Let_def)

lemma determineComplexity_TimeClass:
  "known_class (a_TimeClass s) \<Longrightarrow> a_TimeClass (determineComplexity s) = a_TimeClass s"
  by (auto simp: determineComplexity_def Let_def known_class_def)

lemma determineComplexity_exponential:
  "a_TimeClass s = ''exponential'' \<Longrightarrow>
     a_Complexity (determineComplexity s) = ''O(2^n)''
     \<and> a_Score (determineComplexity s) = max 70 (a_Score s)"
  by (simp add: determineComplexity_def Let_def)

lemma determineComplexity_linear:
  "a_TimeClass s = ''linear'' \<Longrightarrow>
     a_Complexity (determineComplexity s) = ''O(n)''
     \<and> a_Score (determineComplexity s) = a_Score s"
  by (simp add: determineComplexity_def Let_def)

lemma determineComplexity_polynomial:
  "a_TimeClass s = ''polynomial'' \<Longrightarrow>
     a_Complexity (determineComplexity s)
       = (if a_Degree s = 2 then O_n2 else if a_Degree s = 3 then O_n3 else ''O(n^k)'')
     \<and> a_Score (determineComplexity s) = max 40 (a_Score s)"
  by (simp add: determineComplexity_def Let_def)

lemma Analyze_scored:
  "Analyze L a re pattern =
     Inr (let score = determineComplexity (scored L re)
          in if a_Score score > a_MaxComplexityScore (a_opts a)
             then score\<lparr>a_Score := a_MaxComplexityScore (a_opts a)\<rparr> else score)"
  by (simp add: Analyze_def scored_def Let_def)

lemma scored_known_class: "known_class (a_TimeClass (scored L re))"
  using analyzeNesting_TimeClass
    [of re "\<lparr>a_Score = 0, a_Complexity = ''O(n)'', a_Description = ''Linear time complexity'',
        a_TimeClass = ''linear'', a_Degree = 1, a_Issues = [], a_Metrics = Map.empty\<rparr>"]
  by (auto simp: scored_def known_class_def analyzePattern_TimeClass
      analyzeAlternations_TimeClass analyzeQuantifiers_TimeClass)

lemma Analyze_TimeClass:
  "Analyze L a re pattern = Inr r \<Longrightarrow> a_TimeClass r = a_TimeClass (scored L re)"
  using determineComplexity_TimeClass [OF scored_known_class [of L re]]
  by (auto simp: Analyze_scored Let_def)

lemma Analyze_known_class:
  "Analyze L a re pattern = Inr r \<Longrightarrow> known_class (a_TimeClass r)"
  using Analyze_TimeClass [of L a re pattern r] scored_known_class [of L re] by simp

lemma Analyze_exponential:
  assumes "Analyze L a re pattern = Inr r" and "a_TimeClass r = ''exponential''"
  shows "a_Complexity r = ''O(2^n)''"
    and "a_Score r = min (a_MaxComplexityScore (a_opts a)) (max 70 (a_Score (scored L re)))"
proof -
  from assms have e: "a_TimeClass (scored L re) = ''exponential''"
    using Analyze_TimeClass by metis
  from determineComplexity_exponential [OF e] assms(1)
  show "a_Complexity r = ''O(2^n)''"
    by (auto simp: Analyze_scored Let_def split: if_splits)
  from determineComplexity_exponential [OF e] assms(1)
  show "a_Score r = min (a_MaxComplexityScore (a_opts a)) (max 70 (a_Score (scored L re)))"
    by (auto simp: Analyze_scored Let_def split: if_splits)
qed

lemma analyzeNesting_nested:
  "a_TimeClass (analyzeNesting re s) =
     (if hasNestedQuantifiers re then ''exponential'' else a_TimeClass s)"
proof -
  let ?v = "\<lambda>node (maxDepth, nestedCount).
              if isQuantifier node
              then (let depth = getQuantifierDepth node;
                        maxDepth = (if depth > maxDepth then depth else maxDepth);
                        nestedCount = (if isTrulyNested node then nestedCount + 1
                                       else nestedCount)
                    in (True, (maxDepth, nestedCount)))
              else (True, (maxDepth, nestedCount))"
  let ?f = "\<lambda>node (maxDepth, nestedCount).
              if isQuantifier node
              then (if getQuantifierDepth node > maxDepth then getQuantifierDepth node
                    else maxDepth,
                    if isTrulyNested node then nestedCount + 1 else nestedCount)
              else (maxDepth, nestedCount)"
  define w where "w = walkRegexp re ?v (0::int, 0::int)"
  have always: "fst (?v n t)" for n t
    by (simp add: Let_def split: prod.splits)
  have step: "(\<lambda>n t. snd (?v n t)) = ?f"
    by (intro ext) (simp add: Let_def split: prod.splits)
  have "w = fold ?f (nodes re) (0::int, 0::int)"
    unfolding w_def walkRegexp_def using Walk_all [of ?v re "(0::int, 0::int)", OF always]
    by (simp only: step)
  then have "snd w = snd (fold ?f (nodes re) (0, 0))"
    by (rule arg_cong)
  also have "\<dots> = 0 + int (length (filter (\<lambda>n. isQuantifier n \<and> isTrulyNested n) (nodes re)))"
    by (rule nesting_fold)
  finally have n: "snd w
      = int (length (filter (\<lambda>n. isQuantifier n \<and> isTrulyNested n) (nodes re)))"
    by (simp only: add_0)
  have h: "hasNestedQuantifiers re
      = (0 < int (length (filter (\<lambda>n. isQuantifier n \<and> isTrulyNested n) (nodes re))))"
    by (simp add: hasNestedQuantifiers_nodes list_ex_iff filter_empty_conv)
  have c: "hasNestedQuantifiers re = (0 < snd w)"
    unfolding n by (rule h)
  have "analyzeNesting re s =
     (let (maxDepth, nestedCount) = w;
          score = s\<lparr>a_Metrics := (a_Metrics s)(''nesting_depth'' \<mapsto> MInt maxDepth)\<rparr>;
          score = score\<lparr>a_Metrics :=
                    (a_Metrics score)(''nested_quantifiers'' \<mapsto> MInt nestedCount)\<rparr>
      in if nestedCount > 0
         then score\<lparr>a_Score := a_Score score + (40 + nestedCount * 10),
                    a_Issues := a_Issues score @ [''nested quantifiers (exponential risk)''],
                    a_TimeClass := ''exponential'',
                    a_Degree := nestedCount + 1\<rparr>
         else if maxDepth > 3
         then score\<lparr>a_Score := a_Score score + (15 + maxDepth * 5),
                    a_Issues := a_Issues score @ [''deep nesting'']\<rparr>
         else score)"
    unfolding w_def analyzeNesting_def ..
  then show ?thesis
    unfolding c by (cases w) (simp add: Let_def)
qed

lemma scored_TimeClass:
  "a_TimeClass (scored L re) =
     (if hasNestedQuantifiers re then ''exponential''
      else if findOverlappingQuantifiers L re \<noteq> [] then ''polynomial''
      else ''linear'')"
  by (simp add: scored_def analyzePattern_TimeClass analyzeAlternations_TimeClass
      analyzeQuantifiers_TimeClass analyzeNesting_nested)

section \<open>The public analysis\<close>

lemma O_n2_distinct:
  "O_n2 \<noteq> ''O(1)''" "O_n2 \<noteq> ''O(n)''" "O_n2 \<noteq> ''O(n^k)''" "O_n2 \<noteq> ''O(2^n)''"
  "O_n3 \<noteq> ''O(1)''" "O_n3 \<noteq> ''O(n)''" "O_n3 \<noteq> ''O(n^k)''" "O_n3 \<noteq> ''O(2^n)''"
  "O_n2 \<noteq> O_n3"
  by (simp_all add: O_n2_def O_n3_def)

lemma complexityFromString_simps:
  "complexityFromString ''O(1)'' = Constant"
  "complexityFromString ''O(n)'' = Linear"
  "complexityFromString O_n2 = Quadratic"
  "complexityFromString O_n3 = Cubic"
  "complexityFromString ''O(n^k)'' = Polynomial"
  "complexityFromString ''O(2^n)'' = Exponential"
  using O_n2_distinct by (simp_all add: complexityFromString_def)

text \<open>
  What \<open>analyze\<close> copies from the scorer's result, for a pattern that parses: every
  field but the two pump fields.
\<close>

lemma analyze_fields:
  assumes "Parse L (anlz_parser a) pattern = Inr re"
    and "Analyze L (anlz_impl a) re pattern = Inr r"
  shows "\<exists>score. analyze L a pattern = Inr score
           \<and> Overall score = a_Score r
           \<and> TimeComplexity score = complexityFromString (a_Complexity r)
           \<and> HasEDA score = (a_TimeClass r = ''exponential'')
           \<and> HasIDA score = (a_TimeClass r = ''polynomial'')
           \<and> PolynomialDegree score = a_Degree r
           \<and> Safe score = (a_Score r < 50)"
  using assms by (simp add: analyze_def Let_def split: prod.splits)

lemma Analyze_total: "\<exists>r. Analyze L a re pattern = Inr r"
  by (simp add: Analyze_scored)

lemma newAnalyzer_Thorough:
  "anlz_parser (newAnalyzer (ThoroughOptions\<lparr>Checks := CheckAll\<rparr>)) = NewParser"
  "a_MaxComplexityScore (a_opts (anlz_impl (newAnalyzer (ThoroughOptions\<lparr>Checks := CheckAll\<rparr>))))
     = 70"
  by (simp_all add: newAnalyzer_def NewAnalyzer_def ThoroughOptions_def)

text \<open>
  C1. For every pattern that the parser accepts, \<open>AnalyzeComplexity\<close> returns a
  score, and if that score reports \<open>HasEDA\<close> then \<open>Overall \<ge> 70\<close> and the time
  complexity is the exponential class: the floor of 70 survives the cap, which
  \<open>ThoroughOptions\<close> sets to 70.
\<close>

theorem AnalyzeComplexity_HasEDA:
  assumes "Parse L NewParser pattern = Inr re"
  shows "\<exists>score. AnalyzeComplexity L pattern = Inr score
           \<and> (HasEDA score \<longrightarrow> Overall score \<ge> 70 \<and> TimeComplexity score = Exponential)"
proof -
  let ?a = "newAnalyzer (ThoroughOptions\<lparr>Checks := CheckAll\<rparr>)"
  obtain r where r: "Analyze L (anlz_impl ?a) re pattern = Inr r"
    using Analyze_total by blast
  from assms have p: "Parse L (anlz_parser ?a) pattern = Inr re"
    by (simp add: newAnalyzer_Thorough)
  from analyze_fields [OF p r] obtain score where
    s: "analyze L ?a pattern = Inr score"
    and o: "Overall score = a_Score r"
    and t: "TimeComplexity score = complexityFromString (a_Complexity r)"
    and e: "HasEDA score = (a_TimeClass r = ''exponential'')"
    by blast
  have "Overall score \<ge> 70 \<and> TimeComplexity score = Exponential" if "HasEDA score"
  proof -
    from that e have x: "a_TimeClass r = ''exponential''" by simp
    from Analyze_exponential [OF r x] show ?thesis
      by (simp add: o t newAnalyzer_Thorough complexityFromString_simps)
  qed
  with s show ?thesis
    by (auto simp: AnalyzeComplexity_def Let_def)
qed

theorem AnalyzeComplexity_HasEDA_witness:
  "Parse sample_lib NewParser ''(a+)+''
     = Inr (mk_Plus (mk_Capture (mk_Plus (mk_Literal ''a''))))
   \<and> HasEDA (projr (AnalyzeComplexity sample_lib ''(a+)+''))
   \<and> Overall (projr (AnalyzeComplexity sample_lib ''(a+)+'')) \<ge> 70
   \<and> TimeComplexity (projr (AnalyzeComplexity sample_lib ''(a+)+'')) = Exponential"
proof -
  have p: "Parse sample_lib NewParser ''(a+)+''
             = Inr (mk_Plus (mk_Capture (mk_Plus (mk_Literal ''a''))))"
    by (simp add: Parse_def NewParser_def sample_lib_def sample_Parse_def)
  have h: "HasEDA (projr (AnalyzeComplexity sample_lib ''(a+)+''))"
    by code_simp
  from AnalyzeComplexity_HasEDA [OF p] obtain score where
    "AnalyzeComplexity sample_lib ''(a+)+'' = Inr score"
    "HasEDA score \<longrightarrow> Overall score \<ge> 70 \<and> TimeComplexity score = Exponential"
    by blast
  with h p show ?thesis by simp
qed

text \<open>
  C2. The claim wants \<open>PolynomialDegree = 0\<close> whenever \<open>HasIDA\<close> is false.
  \<open>analyze\<close> copies the scorer's \<open>Degree\<close> into \<open>PolynomialDegree\<close> whatever the
  time class is; for \<open>(a+)+\<close> the class is exponential, \<open>HasIDA\<close> is false and
  \<open>PolynomialDegree\<close> is 2 (one nested quantifier, plus one).
\<close>

theorem AnalyzeComplexity_PolynomialDegree_exponential:
  "map_sum id (\<lambda>s. (HasEDA s, HasIDA s, PolynomialDegree s))
     (AnalyzeComplexity sample_lib ''(a+)+'') = Inr (True, False, 2)"
  by code_simp

text \<open>The same for a plain literal: linear class, \<open>PolynomialDegree = 1\<close>.\<close>

lemma AnalyzeComplexity_PolynomialDegree_linear:
  "map_sum id (\<lambda>s. (HasEDA s, HasIDA s, PolynomialDegree s))
     (AnalyzeComplexity sample_lib ''hello'') = Inr (False, False, 1)"
  by code_simp

text \<open>
  C4. The claim wants the exponential class whenever a pattern has nested
  quantifiers and overlapping consecutive quantifiers. The scorer counts a
  quantifier as nested only if its first child is a quantifier or holds one under
  concatenations and capture groups; a quantifier under an alternation is not
  counted. In \<open>(a|b+)*c*d*\<close> the star holds \<open>b+\<close> under an alternation: the pump
  generator, the fast check and the analysis of the automaton all find a nested
  quantifier there, two quantifiers follow each other in the concatenation, and
  the result has \<open>HasIDA\<close> and the quadratic class, not \<open>HasEDA\<close>.
\<close>

theorem AnalyzeComplexity_nesting_counterexample:
  "Parse sample_lib NewParser ''(a|b+)*c*d*''
     = Inr (mk_Concat [mk_Star (mk_Capture (mk_Alternate [mk_Literal ''a'',
                                                           mk_Plus (mk_Literal ''b'')])),
                       mk_Star (mk_Literal ''c''), mk_Star (mk_Literal ''d'')])
   \<and> pump_hasNestedQuantifiers
       (mk_Concat [mk_Star (mk_Capture (mk_Alternate [mk_Literal ''a'',
                                                       mk_Plus (mk_Literal ''b'')])),
                   mk_Star (mk_Literal ''c''), mk_Star (mk_Literal ''d'')])
   \<and> findNestedQuantifiersInNFA sample_lib
       (mk_Concat [mk_Star (mk_Capture (mk_Alternate [mk_Literal ''a'',
                                                       mk_Plus (mk_Literal ''b'')])),
                   mk_Star (mk_Literal ''c''), mk_Star (mk_Literal ''d'')])
       = [''(a|b+)*'']
   \<and> map d_Type
       (detectNestedQuantifiers sample_lib (NewDetector \<lparr>d_Mode = Fast, d_Checks = CheckAll\<rparr>)
          (mk_Concat [mk_Star (mk_Capture (mk_Alternate [mk_Literal ''a'',
                                                          mk_Plus (mk_Literal ''b'')])),
                      mk_Star (mk_Literal ''c''), mk_Star (mk_Literal ''d'')])
          ''(a|b+)*c*d*'')
       = [''nested_quantifiers'']
   \<and> findOverlappingQuantifiers sample_lib
       (mk_Concat [mk_Star (mk_Capture (mk_Alternate [mk_Literal ''a'',
                                                       mk_Plus (mk_Literal ''b'')])),
                   mk_Star (mk_Literal ''c''), mk_Star (mk_Literal ''d'')])
       = [''(a|b+)*c*d*'']
   \<and> map_sum id (\<lambda>s. (HasEDA s, HasIDA s, TimeComplexity s, Overall s))
       (AnalyzeComplexity sample_lib ''(a|b+)*c*d*'') = Inr (False, True, Quadratic, 45)"
proof (intro conjI)
  show "Parse sample_lib NewParser ''(a|b+)*c*d*''
     = Inr (mk_Concat [mk_Star (mk_Capture (mk_Alternate [mk_Literal ''a'',
                                                           mk_Plus (mk_Literal ''b'')])),
                       mk_Star (mk_Literal ''c''), mk_Star (mk_Literal ''d'')])"
    by (simp add: Parse_def NewParser_def sample_lib_def sample_Parse_def)
qed code_simp+

text \<open>
  C4, as the code has it. For every pattern that the parser accepts, \<open>HasEDA\<close> and
  \<open>HasIDA\<close> are never both true. \<open>HasEDA\<close> holds exactly when the scorer finds a
  nested quantifier: a quantifier node whose first child is a quantifier or holds
  one under concatenations and capture groups only (\<open>isTrulyNested\<close>). \<open>HasIDA\<close>
  holds exactly when the scorer finds no such node and some concatenation has two
  quantifiers in a row. So when the scorer finds both, the class is exponential
  and not polynomial.
\<close>

theorem AnalyzeComplexity_EDA_before_IDA:
  assumes "Parse L NewParser pattern = Inr re"
  shows "\<exists>score. AnalyzeComplexity L pattern = Inr score
           \<and> \<not> (HasEDA score \<and> HasIDA score)
           \<and> (HasEDA score \<longleftrightarrow>
                list_ex (\<lambda>node. isQuantifier node \<and> isTrulyNested node) (nodes re))
           \<and> (HasIDA score \<longleftrightarrow>
                \<not> list_ex (\<lambda>node. isQuantifier node \<and> isTrulyNested node) (nodes re)
                \<and> findOverlappingQuantifiers L re \<noteq> [])
           \<and> (hasNestedQuantifiers re \<and> findOverlappingQuantifiers L re \<noteq> [] \<longrightarrow>
                HasEDA score \<and> \<not> HasIDA score \<and> TimeComplexity score = Exponential)"
proof -
  let ?a = "newAnalyzer (ThoroughOptions\<lparr>Checks := CheckAll\<rparr>)"
  obtain r where r: "Analyze L (anlz_impl ?a) re pattern = Inr r"
    using Analyze_total by blast
  from assms have p: "Parse L (anlz_parser ?a) pattern = Inr re"
    by (simp add: newAnalyzer_Thorough)
  from analyze_fields [OF p r] obtain score where
    s: "analyze L ?a pattern = Inr score"
    and t: "TimeComplexity score = complexityFromString (a_Complexity r)"
    and e: "HasEDA score = (a_TimeClass r = ''exponential'')"
    and i: "HasIDA score = (a_TimeClass r = ''polynomial'')"
    by blast
  have c: "a_TimeClass r =
             (if hasNestedQuantifiers re then ''exponential''
              else if findOverlappingQuantifiers L re \<noteq> [] then ''polynomial''
              else ''linear'')"
    using Analyze_TimeClass [OF r] by (simp add: scored_TimeClass)
  have excl: "\<not> (HasEDA score \<and> HasIDA score)"
    by (auto simp: e i)
  have eda: "HasEDA score \<longleftrightarrow>
               list_ex (\<lambda>node. isQuantifier node \<and> isTrulyNested node) (nodes re)"
    by (simp add: e c hasNestedQuantifiers_nodes)
  have ida: "HasIDA score \<longleftrightarrow>
               \<not> list_ex (\<lambda>node. isQuantifier node \<and> isTrulyNested node) (nodes re)
               \<and> findOverlappingQuantifiers L re \<noteq> []"
    by (simp add: i c hasNestedQuantifiers_nodes)
  have "HasEDA score \<and> \<not> HasIDA score \<and> TimeComplexity score = Exponential"
    if "hasNestedQuantifiers re"
  proof -
    from that have x: "a_TimeClass r = ''exponential''"
      by (simp add: c)
    from Analyze_exponential(1) [OF r x] show ?thesis
      by (simp add: e i t x complexityFromString_simps)
  qed
  with s excl eda ida show ?thesis
    by (auto simp: AnalyzeComplexity_def Let_def)
qed

theorem AnalyzeComplexity_EDA_before_IDA_witness:
  "Parse sample_lib NewParser ''(a+)+b*c*''
     = Inr (mk_Concat [mk_Plus (mk_Capture (mk_Plus (mk_Literal ''a''))),
                       mk_Star (mk_Literal ''b''), mk_Star (mk_Literal ''c'')])
   \<and> hasNestedQuantifiers
       (mk_Concat [mk_Plus (mk_Capture (mk_Plus (mk_Literal ''a''))),
                   mk_Star (mk_Literal ''b''), mk_Star (mk_Literal ''c'')])
   \<and> findOverlappingQuantifiers sample_lib
       (mk_Concat [mk_Plus (mk_Capture (mk_Plus (mk_Literal ''a''))),
                   mk_Star (mk_Literal ''b''), mk_Star (mk_Literal ''c'')]) \<noteq> []
   \<and> HasEDA (projr (AnalyzeComplexity sample_lib ''(a+)+b*c*''))
   \<and> \<not> HasIDA (projr (AnalyzeComplexity sample_lib ''(a+)+b*c*''))
   \<and> TimeComplexity (projr (AnalyzeComplexity sample_lib ''(a+)+b*c*'')) = Exponential"
proof -
  let ?re = "mk_Concat [mk_Plus (mk_Capture (mk_Plus (mk_Literal ''a''))),
                        mk_Star (mk_Literal ''b''), mk_Star (mk_Literal ''c'')]"
  have p: "Parse sample_lib NewParser ''(a+)+b*c*'' = Inr ?re"
    by (simp add: Parse_def NewParser_def sample_lib_def sample_Parse_def)
  have n: "hasNestedQuantifiers ?re"
    by code_simp
  have o: "findOverlappingQuantifiers sample_lib ?re \<noteq> []"
    by code_simp
  from AnalyzeComplexity_EDA_before_IDA [OF p] n o obtain score where
    "AnalyzeComplexity sample_lib ''(a+)+b*c*'' = Inr score"
    "HasEDA score \<and> \<not> HasIDA score \<and> TimeComplexity score = Exponential"
    by blast
  with p n o show ?thesis by simp
qed

text \<open>
  C7. The claim wants the class constant, \<open>O(1)\<close>, exactly when the score is below
  10, the class is still linear and the pattern has no quantifier. For the literal
  \<open>hello\<close> the score is 0, the class is linear and there is no quantifier, and the
  final step leaves the class linear with \<open>O(n)\<close>.
\<close>

theorem determineComplexity_constant_counterexample:
  "\<not> ((a_TimeClass (determineComplexity (scored sample_lib (mk_Literal ''hello'')))
          = ''constant''
        \<and> a_Complexity (determineComplexity (scored sample_lib (mk_Literal ''hello'')))
          = ''O(1)'')
       \<longleftrightarrow>
       (a_Score (scored sample_lib (mk_Literal ''hello'')) < 10
        \<and> a_TimeClass (scored sample_lib (mk_Literal ''hello'')) = ''linear''
        \<and> \<not> hasQuantifier (mk_Literal ''hello'')))"
  by code_simp

text \<open>
  C7, as the code has it. In the final step a linear class always stays linear with
  the string \<open>O(n)\<close>, whatever the score and the quantifiers; the branch that
  assigns \<open>constant\<close> and \<open>O(1)\<close> is the fall-through of the switch, taken only
  for a class other than exponential, polynomial and linear (and a score below 10),
  and the scorer produces no such class: no result of \<open>Analyze\<close> is constant.
\<close>

theorem determineComplexity_linear_stays:
  "(a_TimeClass s = ''linear'' \<longrightarrow>
      a_TimeClass (determineComplexity s) = ''linear''
      \<and> a_Complexity (determineComplexity s) = ''O(n)'')
   \<and> ((a_TimeClass (determineComplexity s) = ''constant''
        \<and> a_Complexity (determineComplexity s) = ''O(1)'')
       \<longleftrightarrow> (\<not> known_class (a_TimeClass s)
            \<and> (a_Score s < 10 \<or> (a_TimeClass s = ''constant'' \<and> a_Complexity s = ''O(1)''))))
   \<and> (\<forall>L a re pattern r. Analyze L a re pattern = Inr r \<longrightarrow>
         a_TimeClass r \<noteq> ''constant'' \<and> a_Complexity r \<noteq> ''O(1)'')"
proof (intro conjI allI impI)
  assume "a_TimeClass s = ''linear''"
  then show "a_TimeClass (determineComplexity s) = ''linear''"
    and "a_Complexity (determineComplexity s) = ''O(n)''"
    by (simp_all add: determineComplexity_def)
next
  show "(a_TimeClass (determineComplexity s) = ''constant''
          \<and> a_Complexity (determineComplexity s) = ''O(1)'')
        \<longleftrightarrow> (\<not> known_class (a_TimeClass s)
             \<and> (a_Score s < 10 \<or> (a_TimeClass s = ''constant'' \<and> a_Complexity s = ''O(1)'')))"
    using O_n2_distinct
    by (auto simp: determineComplexity_def Let_def known_class_def)
next
  fix L a re pattern r
  assume r: "Analyze L a re pattern = Inr r"
  from Analyze_known_class [OF r] show "a_TimeClass r \<noteq> ''constant''"
    by (auto simp: known_class_def)
  have k: "known_class (a_TimeClass (scored L re))"
    by (rule scored_known_class)
  have "a_Complexity (determineComplexity (scored L re)) \<noteq> ''O(1)''"
    using k O_n2_distinct
    by (auto simp: determineComplexity_def Let_def known_class_def)
  with r show "a_Complexity r \<noteq> ''O(1)''"
    by (auto simp: Analyze_scored Let_def split: if_splits)
qed

theorem determineComplexity_linear_stays_witness:
  "a_TimeClass (scored sample_lib (mk_Literal ''hello'')) = ''linear''
   \<and> a_TimeClass (determineComplexity (scored sample_lib (mk_Literal ''hello''))) = ''linear''
   \<and> a_Complexity (determineComplexity (scored sample_lib (mk_Literal ''hello''))) = ''O(n)''
   \<and> Analyze sample_lib (NewAnalyzer None) (mk_Literal ''hello'') ''hello''
       = Inr (projr (Analyze sample_lib (NewAnalyzer None) (mk_Literal ''hello'') ''hello''))
   \<and> a_TimeClass (projr (Analyze sample_lib (NewAnalyzer None) (mk_Literal ''hello'') ''hello''))
       \<noteq> ''constant''
   \<and> a_Complexity (projr (Analyze sample_lib (NewAnalyzer None) (mk_Literal ''hello'') ''hello''))
       \<noteq> ''O(1)''"
proof -
  have l: "a_TimeClass (scored sample_lib (mk_Literal ''hello'')) = ''linear''"
    by code_simp
  have r: "Analyze sample_lib (NewAnalyzer None) (mk_Literal ''hello'') ''hello''
       = Inr (projr (Analyze sample_lib (NewAnalyzer None) (mk_Literal ''hello'') ''hello''))"
    by (simp add: Analyze_scored)
  from determineComplexity_linear_stays [of "scored sample_lib (mk_Literal ''hello'')"] l r
  show ?thesis by blast
qed

section \<open>Pump generation inside the analysis\<close>

lemma pump_Generate_first:
  "\<exists>p ps. pump_Generate L g re pattern = Inr (p # ps) \<and> FailSuffix p = ''x''"
  by (simp add: pump_Generate_def Let_def generateNestedQuantifierPump_def
      generateOverlappingQuantifierPump_def generateAlternationPump_def
      generateGenericPump_def)

lemma generate_succeeds:
  assumes "Parse L NewParser pattern = Inr re"
  shows "\<exists>pump c. generate L (newPumpGenerator opts) pattern = Inr pump
           \<and> Pumps pump = [c] \<and> Suffix pump = ''x''"
proof -
  obtain p ps where g: "pump_Generate L (pg_impl (newPumpGenerator opts)) re pattern = Inr (p # ps)"
    and x: "FailSuffix p = ''x''"
    using pump_Generate_first by blast
  from assms have "Parse L (pg_parser (newPumpGenerator opts)) pattern = Inr re"
    by (simp add: newPumpGenerator_def)
  with g x show ?thesis
    by (simp add: generate_def)
qed

lemma Generate_ends_with_Suffix:
  "Suffix p \<noteq> '''' \<Longrightarrow> Generate p n \<noteq> ''''"
  by (simp add: Generate_def Let_def)

text \<open>
  C3. For every pattern that the parser accepts, \<open>AnalyzeComplexity\<close> returns a
  score in which \<open>Overall \<ge> 50\<close> holds if and only if \<open>WorstCaseInput\<close> is not
  empty, and if and only if the pump components are not empty: the pump is
  generated exactly when \<open>Overall \<ge> 50\<close>, and generation succeeds then, since the
  second parse of the same pattern succeeds and the generator always returns a
  pump, whose suffix is \<open>x\<close>.
\<close>

theorem AnalyzeComplexity_pump_populated:
  assumes "Parse L NewParser pattern = Inr re"
  shows "\<exists>score. AnalyzeComplexity L pattern = Inr score
           \<and> (Overall score \<ge> 50 \<longleftrightarrow> WorstCaseInput score \<noteq> '''')
           \<and> (Overall score \<ge> 50 \<longleftrightarrow> PumpComponents score \<noteq> [])"
proof -
  let ?o = "ThoroughOptions\<lparr>Checks := CheckAll\<rparr>"
  let ?a = "newAnalyzer ?o"
  obtain r where r: "Analyze L (anlz_impl ?a) re pattern = Inr r"
    using Analyze_total by blast
  from assms have p: "Parse L (anlz_parser ?a) pattern = Inr re"
    by (simp add: newAnalyzer_Thorough)
  obtain pump c where g: "generate L (newPumpGenerator ?o) pattern = Inr pump"
    and c: "Pumps pump = [c]" and x: "Suffix pump = ''x''"
    using generate_succeeds [OF assms] by blast
  from x have w: "Generate pump 20 \<noteq> ''''"
    by (simp add: Generate_ends_with_Suffix)
  have o: "anlz_opts ?a = ?o"
    by (simp add: newAnalyzer_def)
  show ?thesis
  proof (cases "a_Score r \<ge> 50")
    case True
    with p r g c w o show ?thesis
      by (simp add: AnalyzeComplexity_def analyze_def Let_def)
  next
    case False
    with p r show ?thesis
      by (simp add: AnalyzeComplexity_def analyze_def Let_def)
  qed
qed

theorem AnalyzeComplexity_pump_populated_witness:
  "Parse sample_lib NewParser ''(a+)+''
     = Inr (mk_Plus (mk_Capture (mk_Plus (mk_Literal ''a''))))
   \<and> Overall (projr (AnalyzeComplexity sample_lib ''(a+)+'')) \<ge> 50
   \<and> WorstCaseInput (projr (AnalyzeComplexity sample_lib ''(a+)+'')) \<noteq> ''''
   \<and> PumpComponents (projr (AnalyzeComplexity sample_lib ''(a+)+'')) \<noteq> []"
proof -
  have p: "Parse sample_lib NewParser ''(a+)+''
             = Inr (mk_Plus (mk_Capture (mk_Plus (mk_Literal ''a''))))"
    by (simp add: Parse_def NewParser_def sample_lib_def sample_Parse_def)
  have h: "Overall (projr (AnalyzeComplexity sample_lib ''(a+)+'')) \<ge> 50"
    by code_simp
  from AnalyzeComplexity_pump_populated [OF p] obtain score where
    "AnalyzeComplexity sample_lib ''(a+)+'' = Inr score"
    "Overall score \<ge> 50 \<longleftrightarrow> WorstCaseInput score \<noteq> ''''"
    "Overall score \<ge> 50 \<longleftrightarrow> PumpComponents score \<noteq> []"
    by blast
  with h p show ?thesis by simp
qed

lemma AnalyzeComplexity_examples:
  "map_sum id (\<lambda>s. (Overall s, WorstCaseInput s, PumpComponents s))
     (AnalyzeComplexity sample_lib ''(a+)+'') = Inr (70, ''aaaaaaaaaaaaaaaaaaaax'', [''a''])"
  "map_sum id (\<lambda>s. (Overall s, WorstCaseInput s, PumpComponents s))
     (AnalyzeComplexity sample_lib ''a*a*'') = Inr (45, '''', [])"
  by code_simp+

section \<open>Validation\<close>

text \<open>
  C6. The claim wants at most one \<open>overlapping_alternation\<close> issue for an
  alternation. The \<open>break\<close> of \<open>detectOverlappingAlternations\<close> leaves the inner
  loop only, so every branch that overlaps a later one adds an issue for the same
  node: the three branches of \<open>(a)|(a)|(a)\<close> give two issues (branch 0 with branch
  1, then branch 1 with branch 2), whatever the library prints for the branches.
\<close>

theorem detectOverlappingAlternations_two_issues:
  "map d_Type
     (detectOverlappingAlternations L d
        (mk_Alternate [mk_Capture (mk_Literal ''a''), mk_Capture (mk_Literal ''a''),
                       mk_Capture (mk_Literal ''a'')])
        ''(a)|(a)|(a)'')
   = [''overlapping_alternation'', ''overlapping_alternation'']"
proof -
  have ov: "branchesOverlap L (mk_Capture (mk_Literal ''a'')) (mk_Capture (mk_Literal ''a''))"
    by (subst branchesOverlap.simps) (simp add: mk_Capture_def mk_Literal_def Let_def)
  show ?thesis
    by (simp add: detectOverlappingAlternations_def mk_Alternate_def IsAlternation_def
        Let_def ov) (simp add: mk_Capture_def mk_Literal_def)
qed

text \<open>
  C9. The claim wants the typed invalid-pattern error from \<open>validate\<close> for every
  options value. With \<open>AllowUnsafe\<close> set, \<open>ValidateWithOptions\<close> returns before it
  parses: for the unbalanced bracket, which does not parse, it returns an empty
  list of issues and no error.
\<close>

theorem ValidateWithOptions_AllowUnsafe_counterexample:
  "Parse sample_lib NewParser ''[''
     = Inl (ErrInvalidPattern ''missing closing ]: `[`'')
   \<and> ValidateWithOptions sample_lib ''['' (Some (DefaultOptions\<lparr>AllowUnsafe := True\<rparr>))
     = Inr []"
  by (simp add: Parse_def NewParser_def sample_lib_def sample_Parse_def
      ValidateWithOptions_def)

text \<open>
  C9, as the code has it. For a pattern whose parse fails, the error of the parser
  is an invalid-pattern error; \<open>AnalyzeComplexity\<close> returns it; and
  \<open>ValidateWithOptions\<close> returns it, without issues, for every options value that
  neither sets \<open>AllowUnsafe\<close> nor rejects the length of the pattern. With
  \<open>AllowUnsafe\<close> the result is the empty list of issues and no error, and a
  pattern longer than a positive \<open>MaxPatternLength\<close> is rejected as too long
  before it is parsed. A nil options value stands for \<open>DefaultOptions\<close>.
\<close>

theorem parse_failure_surfaces:
  assumes "Parse L NewParser pattern = Inl err"
  shows "(\<exists>msg. err = ErrInvalidPattern msg)
         \<and> AnalyzeComplexity L pattern = Inl err
         \<and> (\<forall>opts. ValidateWithOptions L pattern opts =
               (let opts' = (case opts of None \<Rightarrow> DefaultOptions | Some opts' \<Rightarrow> opts')
                in if AllowUnsafe opts' then Inr []
                   else if MaxPatternLength opts' > 0
                           \<and> int (length pattern) > MaxPatternLength opts'
                   then Inl (ErrPatternTooLong (int (length pattern)) (MaxPatternLength opts'))
                   else Inl err))"
proof (intro conjI allI)
  from assms show "\<exists>msg. err = ErrInvalidPattern msg"
    by (auto simp: Parse_def split: sum.splits)
  from assms show "AnalyzeComplexity L pattern = Inl err"
    by (simp add: AnalyzeComplexity_def analyze_def newAnalyzer_def)
  fix opts
  from assms have "validate L (newValidator opts') pattern = Inl err" for opts'
    by (simp add: validate_def newValidator_def Let_def)
  then show "ValidateWithOptions L pattern opts =
               (let opts' = (case opts of None \<Rightarrow> DefaultOptions | Some opts' \<Rightarrow> opts')
                in if AllowUnsafe opts' then Inr []
                   else if MaxPatternLength opts' > 0
                           \<and> int (length pattern) > MaxPatternLength opts'
                   then Inl (ErrPatternTooLong (int (length pattern)) (MaxPatternLength opts'))
                   else Inl err)"
    by (simp add: ValidateWithOptions_def Let_def)
qed

theorem parse_failure_surfaces_witness:
  "Parse sample_lib NewParser ''[''
     = Inl (ErrInvalidPattern ''missing closing ]: `[`'')
   \<and> AnalyzeComplexity sample_lib ''[''
     = Inl (ErrInvalidPattern ''missing closing ]: `[`'')
   \<and> ValidateWithOptions sample_lib ''['' None
     = Inl (ErrInvalidPattern ''missing closing ]: `[`'')
   \<and> ValidateWithOptions sample_lib ''['' (Some ThoroughOptions)
     = Inl (ErrInvalidPattern ''missing closing ]: `[`'')
   \<and> ValidateWithOptions sample_lib ''['' (Some (FastOptions\<lparr>MaxPatternLength := 0\<rparr>))
     = Inl (ErrInvalidPattern ''missing closing ]: `[`'')"
proof -
  have p: "Parse sample_lib NewParser ''[''
             = Inl (ErrInvalidPattern ''missing closing ]: `[`'')"
    by (simp add: Parse_def NewParser_def sample_lib_def sample_Parse_def)
  from parse_failure_surfaces [OF p] p show ?thesis
    by (simp add: DefaultOptions_def ThoroughOptions_def FastOptions_def)
qed

text \<open>
  C10. For every pattern, \<open>ValidateWithOptions\<close> with a nil options value returns
  what it returns with \<open>DefaultOptions\<close>, the same issues and the same error, which
  is also what \<open>Validate\<close> returns; the default options have the \<open>Balanced\<close> mode,
  the default check flags and the maximal pattern length 1000. The nil value is
  replaced before any field is read.
\<close>

theorem ValidateWithOptions_nil:
  "ValidateWithOptions L pattern None = ValidateWithOptions L pattern (Some DefaultOptions)
   \<and> ValidateWithOptions L pattern None = Validate L pattern
   \<and> Mode DefaultOptions = Balanced
   \<and> Checks DefaultOptions = CheckDefault
   \<and> MaxPatternLength DefaultOptions = 1000
   \<and> \<not> AllowUnsafe DefaultOptions"
  by (simp add: ValidateWithOptions_def Validate_def DefaultOptions_def)

text \<open>What validation with a nil options value does, step by step.\<close>

lemma ValidateWithOptions_nil_unfolded:
  "ValidateWithOptions L pattern None =
     (if int (length pattern) > 1000 then Inl (ErrPatternTooLong (int (length pattern)) 1000)
      else case Parse L NewParser pattern of
             Inl err \<Rightarrow> Inl err
           | Inr re \<Rightarrow>
               Inr (convertIssues
                     (runFastChecks L (NewDetector \<lparr>d_Mode = Balanced, d_Checks = CheckDefault\<rparr>)
                        re pattern
                      @ runBalancedChecks L
                          (NewDetector \<lparr>d_Mode = Balanced, d_Checks = CheckDefault\<rparr>)
                          re pattern)))"
  by (simp add: ValidateWithOptions_def DefaultOptions_def validate_def newValidator_def
      Detect_def NewDetector_def Let_def Balanced_def Fast_def split: sum.splits)

section \<open>The analysis of the automaton\<close>

text \<open>Evaluating the builder: a call on an automaton and states that are given.\<close>

lemma Let_values:
  "Let (a, b) (case_prod f2) = f2 a b"
  "Let \<lparr>nfa_Start = s, nfa_Accept = t, nfa_States = c, nfa_StateCount = d, nfa_Transitions = e\<rparr> g
     = g \<lparr>nfa_Start = s, nfa_Accept = t, nfa_States = c, nfa_StateCount = d, nfa_Transitions = e\<rparr>"
  "Let \<lparr>t_From = p, t_To = q, t_Label = l, t_IsEpsilon = i\<rparr> h
     = h \<lparr>t_From = p, t_To = q, t_Label = l, t_IsEpsilon = i\<rparr>"
  "Let \<lparr>s_ID = i1, s_IsAccept = i2, s_Transitions = i3, s_EpsilonTo = i4\<rparr> k
     = k \<lparr>s_ID = i1, s_IsAccept = i2, s_Transitions = i3, s_EpsilonTo = i4\<rparr>"
  by simp_all

lemmas on_values =
  buildNFAFromRegexp.simps
    [where nfa = "\<lparr>nfa_Start = s, nfa_Accept = t, nfa_States = c, nfa_StateCount = d,
                  nfa_Transitions = e\<rparr>" and start = 0 for s t c d e]
  buildNFAFromRegexp.simps
    [where nfa = "\<lparr>nfa_Start = s, nfa_Accept = t, nfa_States = c, nfa_StateCount = d,
                  nfa_Transitions = e\<rparr>" and start = "Suc n" for s t c d e n]
  NewState_def
    [where nfa = "\<lparr>nfa_Start = s, nfa_Accept = t, nfa_States = c, nfa_StateCount = d,
                  nfa_Transitions = e\<rparr>" for s t c d e]
  update_state_def
    [where nfa = "\<lparr>nfa_Start = s, nfa_Accept = t, nfa_States = c, nfa_StateCount = d,
                  nfa_Transitions = e\<rparr>" and p = 0 for s t c d e]
  update_state_def
    [where nfa = "\<lparr>nfa_Start = s, nfa_Accept = t, nfa_States = c, nfa_StateCount = d,
                  nfa_Transitions = e\<rparr>" and p = "Suc n" for s t c d e n]
  AddTransition_def
    [where nfa = "\<lparr>nfa_Start = s, nfa_Accept = t, nfa_States = c, nfa_StateCount = d,
                  nfa_Transitions = e\<rparr>" and ?from = 0 for s t c d e]
  AddTransition_def
    [where nfa = "\<lparr>nfa_Start = s, nfa_Accept = t, nfa_States = c, nfa_StateCount = d,
                  nfa_Transitions = e\<rparr>" and ?from = "Suc n" for s t c d e n]

lemma BuildNFA_nested_stars:
  "BuildNFA (mk_Star (mk_Capture (mk_Star (mk_Literal ''a'')))) = Inr nested_stars"
  by (simp del: buildNFAFromRegexp.simps
      add: on_values BuildNFA_def mk_Capture_def NewNFA_def AddEpsilonTransition_def
        Let_values mk_Literal_def mk_Star_def buildLiteral_def nested_stars_def
        sample_eps_def sample_letter_def eval_nat_numeral
      cong: let_weak_cong)


text \<open>The two loops that collect states and issues are filters.\<close>

lemma fold_append_if:
  "fold (\<lambda>x acc. if P x then acc @ f x else acc) xs acc
     = acc @ concat (map (\<lambda>x. if P x then f x else []) xs)"
  by (induction xs arbitrary: acc) simp_all

lemma concat_map_if:
  "concat (map (\<lambda>x. if P x then [x] else []) xs) = filter P xs"
  by (induction xs) simp_all

lemma countPathsToState_gt_1:
  "countPathsToState nfa state > 1 \<longleftrightarrow> card (ComputeEpsilonClosure nfa state) > 3"
  by (simp add: countPathsToState_def Let_def)

lemma findAmbiguousStates_filter:
  "findAmbiguousStates nfa
     = filter (\<lambda>state. card (ComputeEpsilonClosure nfa state) > 3)
         [0..<length (nfa_States nfa)]"
proof -
  have "findAmbiguousStates nfa
          = fold (\<lambda>x acc. if card (ComputeEpsilonClosure nfa x) > 3 then acc @ [x] else acc)
              [0..<length (nfa_States nfa)] []"
    by (simp add: findAmbiguousStates_def Let_def countPathsToState_gt_1)
  also have "\<dots> = concat (map (\<lambda>x. if card (ComputeEpsilonClosure nfa x) > 3 then [x] else [])
                        [0..<length (nfa_States nfa)])"
    by (simp add: fold_append_if)
  also have "\<dots> = filter (\<lambda>state. card (ComputeEpsilonClosure nfa state) > 3)
                    [0..<length (nfa_States nfa)]"
    by (rule concat_map_if)
  finally show ?thesis .
qed

text \<open>The closure that the helper computes is the set of states reachable along
  epsilon edges.\<close>

lemma eps_edges_iff:
  "(p, q) \<in> eps_edges nfa
     \<longleftrightarrow> p < length (nfa_States nfa) \<and> q \<in> set (s_EpsilonTo (nfa_States nfa ! p))"
  by (simp add: eps_edges_def)

lemma computeEpsilonClosure_invariant:
  "closure \<subseteq> computeEpsilonClosureHelper nfa state closure
   \<and> state \<in> computeEpsilonClosureHelper nfa state closure
   \<and> (\<forall>x y. x \<in> computeEpsilonClosureHelper nfa state closure \<and> x \<notin> closure
          \<and> (x, y) \<in> eps_edges nfa
        \<longrightarrow> y \<in> computeEpsilonClosureHelper nfa state closure)
   \<and> computeEpsilonClosureHelper nfa state closure
        \<subseteq> closure \<union> (eps_edges nfa)\<^sup>* `` {state}"
  "closure \<subseteq> computeEpsilonClosure_loop nfa nexts closure
   \<and> set nexts \<subseteq> computeEpsilonClosure_loop nfa nexts closure
   \<and> (\<forall>x y. x \<in> computeEpsilonClosure_loop nfa nexts closure \<and> x \<notin> closure
          \<and> (x, y) \<in> eps_edges nfa
        \<longrightarrow> y \<in> computeEpsilonClosure_loop nfa nexts closure)
   \<and> computeEpsilonClosure_loop nfa nexts closure
        \<subseteq> closure \<union> (eps_edges nfa)\<^sup>* `` set nexts"
proof (induction nfa state closure and nfa nexts closure
    rule: computeEpsilonClosureHelper_computeEpsilonClosure_loop.induct)
  case (1 nfa state closure)
  show ?case
  proof (cases "state \<in> closure")
    case True
    then have eq: "computeEpsilonClosureHelper nfa state closure = closure"
      by (subst computeEpsilonClosureHelper.simps) simp
    from True show ?thesis
      unfolding eq by blast
  next
    case False
    show ?thesis
    proof (cases "state < length (nfa_States nfa)")
      case outside: False
      with False have eq: "computeEpsilonClosureHelper nfa state closure = insert state closure"
        by (subst computeEpsilonClosureHelper.simps) simp
      from outside show ?thesis
        unfolding eq by (auto simp: eps_edges_iff)
    next
      case True
      define H where
        "H = computeEpsilonClosure_loop nfa (s_EpsilonTo (nfa_States nfa ! state))
               (insert state closure)"
      from False True have eq: "computeEpsilonClosureHelper nfa state closure = H"
        unfolding H_def by (subst computeEpsilonClosureHelper.simps) simp
      from True have "\<not> length (nfa_States nfa) \<le> state"
        by simp
      note IH0 = 1 [OF False this, folded H_def]
      from IH0 have IH:
        "insert state closure \<subseteq> H"
        "set (s_EpsilonTo (nfa_States nfa ! state)) \<subseteq> H"
        "\<And>x y. x \<in> H \<Longrightarrow> x \<notin> insert state closure \<Longrightarrow> (x, y) \<in> eps_edges nfa \<Longrightarrow> y \<in> H"
        "H \<subseteq> insert state closure
               \<union> (eps_edges nfa)\<^sup>* `` set (s_EpsilonTo (nfa_States nfa ! state))"
        by blast+
      have a: "closure \<subseteq> H" and b: "state \<in> H"
        using IH(1) by auto
      have c: "y \<in> H" if "x \<in> H" "x \<notin> closure" "(x, y) \<in> eps_edges nfa" for x y
      proof (cases "x = state")
        case True
        with that IH(2) show ?thesis
          by (auto simp: eps_edges_iff)
      next
        case False
        with that IH(3) show ?thesis
          by blast
      qed
      have "(eps_edges nfa)\<^sup>* `` set (s_EpsilonTo (nfa_States nfa ! state))
              \<subseteq> (eps_edges nfa)\<^sup>* `` {state}"
      proof
        fix q assume "q \<in> (eps_edges nfa)\<^sup>* `` set (s_EpsilonTo (nfa_States nfa ! state))"
        then obtain n where n: "n \<in> set (s_EpsilonTo (nfa_States nfa ! state))"
            "(n, q) \<in> (eps_edges nfa)\<^sup>*"
          by blast
        from n(1) True have "(state, n) \<in> eps_edges nfa"
          by (simp add: eps_edges_iff)
        from this n(2) have "(state, q) \<in> (eps_edges nfa)\<^sup>*"
          by (rule converse_rtrancl_into_rtrancl)
        then show "q \<in> (eps_edges nfa)\<^sup>* `` {state}"
          by blast
      qed
      with IH(4) have d: "H \<subseteq> closure \<union> (eps_edges nfa)\<^sup>* `` {state}"
        by blast
      from a b c d show ?thesis
        unfolding eq by blast
    qed
  qed
next
  case (2 nfa closure)
  show ?case
    by auto
next
  case (3 nfa "next" rest closure)
  define H1 where "H1 = computeEpsilonClosureHelper nfa next closure"
  define H where "H = computeEpsilonClosure_loop nfa rest H1"
  have eq: "computeEpsilonClosure_loop nfa (next # rest) closure = H"
    unfolding H_def H1_def by simp
  from 3(1) have IH1:
    "closure \<subseteq> H1" "next \<in> H1"
    "\<And>x y. x \<in> H1 \<Longrightarrow> x \<notin> closure \<Longrightarrow> (x, y) \<in> eps_edges nfa \<Longrightarrow> y \<in> H1"
    "H1 \<subseteq> closure \<union> (eps_edges nfa)\<^sup>* `` {next}"
    unfolding H1_def by blast+
  from 3(2) have IH2:
    "H1 \<subseteq> H" "set rest \<subseteq> H"
    "\<And>x y. x \<in> H \<Longrightarrow> x \<notin> H1 \<Longrightarrow> (x, y) \<in> eps_edges nfa \<Longrightarrow> y \<in> H"
    "H \<subseteq> H1 \<union> (eps_edges nfa)\<^sup>* `` set rest"
    unfolding H_def H1_def by blast+
  have a: "closure \<subseteq> H"
    using IH1(1) IH2(1) by blast
  have b: "set (next # rest) \<subseteq> H"
    using IH1(2) IH2(1,2) by auto
  have c: "y \<in> H" if "x \<in> H" "x \<notin> closure" "(x, y) \<in> eps_edges nfa" for x y
  proof (cases "x \<in> H1")
    case True
    with that IH1(3) IH2(1) show ?thesis
      by blast
  next
    case False
    with that IH2(3) show ?thesis
      by blast
  qed
  have d: "H \<subseteq> closure \<union> (eps_edges nfa)\<^sup>* `` set (next # rest)"
    using IH1(4) IH2(4) by auto
  from a b c d show ?case
    unfolding eq by blast
qed

lemma ComputeEpsilonClosure_reachable:
  "ComputeEpsilonClosure nfa state = (eps_edges nfa)\<^sup>* `` {state}"
proof
  show "ComputeEpsilonClosure nfa state \<subseteq> (eps_edges nfa)\<^sup>* `` {state}"
    using computeEpsilonClosure_invariant(1) [of "{}" nfa state]
    by (simp add: ComputeEpsilonClosure_def)
  show "(eps_edges nfa)\<^sup>* `` {state} \<subseteq> ComputeEpsilonClosure nfa state"
  proof
    fix q assume "q \<in> (eps_edges nfa)\<^sup>* `` {state}"
    then have "(state, q) \<in> (eps_edges nfa)\<^sup>*"
      by simp
    then show "q \<in> ComputeEpsilonClosure nfa state"
    proof (induction rule: rtrancl_induct)
      case base
      show ?case
        using computeEpsilonClosure_invariant(1) [of "{}" nfa state]
        by (simp add: ComputeEpsilonClosure_def)
    next
      case (step y z)
      then show ?case
        using computeEpsilonClosure_invariant(1) [of "{}" nfa state]
        unfolding ComputeEpsilonClosure_def by blast
    qed
  qed
qed


text \<open>
  The search of \<open>hasCycle\<close> answers true exactly if, along epsilon edges, the state
  reaches a state of the current path or a state on an epsilon cycle.
\<close>

lemma hasCycle_unmarks:
  "\<not> fst (hasCycle nfa state visited) \<Longrightarrow> snd (hasCycle nfa state visited) = visited"
  "\<not> fst (hasCycle_loop nfa nexts visited) \<Longrightarrow> snd (hasCycle_loop nfa nexts visited) = visited"
proof (induction nfa state visited and nfa nexts visited rule: hasCycle_hasCycle_loop.induct)
  case (1 nfa state visited)
  note u = hasCycle.simps [of nfa state visited]
  show ?case
  proof (cases "state \<in> visited")
    case True
    with 1(2) u show ?thesis
      by simp
  next
    case False
    show ?thesis
    proof (cases "length (nfa_States nfa) \<le> state")
      case True
      with False u show ?thesis
        by simp
    next
      case inside: False
      obtain found visited' where l:
        "hasCycle_loop nfa (s_EpsilonTo (nfa_States nfa ! state)) (insert state visited)
           = (found, visited')"
        by (cases "hasCycle_loop nfa (s_EpsilonTo (nfa_States nfa ! state))
                     (insert state visited)")
      with False inside u have h:
        "hasCycle nfa state visited
           = (if found then (True, visited') else (False, visited' - {state}))"
        by simp
      with 1(2) have nf: "\<not> found"
        by (auto split: if_splits)
      with l 1(1) [OF False inside] have "visited' = insert state visited"
        by simp
      with h nf False show ?thesis
        by simp
    qed
  qed
next
  case (2 nfa visited)
  then show ?case
    by simp
next
  case (3 nfa "next" rest visited)
  then show ?case
    by (auto simp: Let_def split: prod.splits if_splits)
qed

lemma cycle_ahead_step:
  "cycle_ahead nfa visited state \<longleftrightarrow>
     state \<in> visited
     \<or> (\<exists>next. (state, next) \<in> eps_edges nfa \<and> cycle_ahead nfa (insert state visited) next)"
proof
  assume "cycle_ahead nfa visited state"
  then obtain q where q: "(state, q) \<in> (eps_edges nfa)\<^sup>*"
      "q \<in> visited \<or> on_eps_cycle nfa q"
    unfolding cycle_ahead_def by blast
  show "state \<in> visited
     \<or> (\<exists>next. (state, next) \<in> eps_edges nfa \<and> cycle_ahead nfa (insert state visited) next)"
  proof (cases "state \<in> visited")
    case True
    then show ?thesis
      by simp
  next
    case False
    from q(1) show ?thesis
    proof (cases rule: converse_rtranclE)
      case base
      with q(2) False have "(state, state) \<in> (eps_edges nfa)\<^sup>+"
        by (simp add: on_eps_cycle_def)
      then obtain n where "(state, n) \<in> eps_edges nfa" "(n, state) \<in> (eps_edges nfa)\<^sup>*"
        by (meson tranclD)
      then show ?thesis
        unfolding cycle_ahead_def by blast
    next
      case (step n)
      with q(2) show ?thesis
        unfolding cycle_ahead_def by blast
    qed
  qed
next
  assume "state \<in> visited
     \<or> (\<exists>next. (state, next) \<in> eps_edges nfa \<and> cycle_ahead nfa (insert state visited) next)"
  then show "cycle_ahead nfa visited state"
  proof
    assume "state \<in> visited"
    then show ?thesis
      unfolding cycle_ahead_def by blast
  next
    assume "\<exists>next. (state, next) \<in> eps_edges nfa
              \<and> cycle_ahead nfa (insert state visited) next"
    then obtain n q where n: "(state, n) \<in> eps_edges nfa" "(n, q) \<in> (eps_edges nfa)\<^sup>*"
        "q \<in> insert state visited \<or> on_eps_cycle nfa q"
      unfolding cycle_ahead_def by blast
    from n(1,2) have far: "(state, q) \<in> (eps_edges nfa)\<^sup>*"
      by (rule converse_rtrancl_into_rtrancl)
    show ?thesis
    proof (cases "q = state")
      case True
      with n(1,2) have "(state, state) \<in> (eps_edges nfa)\<^sup>+"
        by (simp add: rtrancl_into_trancl2)
      then show ?thesis
        unfolding cycle_ahead_def on_eps_cycle_def by blast
    next
      case False
      with n(3) far show ?thesis
        unfolding cycle_ahead_def by blast
    qed
  qed
qed

lemma hasCycle_cycle_ahead:
  "fst (hasCycle nfa state visited) \<longleftrightarrow> cycle_ahead nfa visited state"
  "fst (hasCycle_loop nfa nexts visited)
     \<longleftrightarrow> (\<exists>next \<in> set nexts. cycle_ahead nfa visited next)"
proof (induction nfa state visited and nfa nexts visited rule: hasCycle_hasCycle_loop.induct)
  case (1 nfa state visited)
  show ?case
  proof (cases "state \<in> visited")
    case True
    then show ?thesis
      by (subst hasCycle.simps, subst cycle_ahead_step) simp
  next
    case False
    show ?thesis
    proof (cases "state < length (nfa_States nfa)")
      case outside: False
      with False have "\<not> fst (hasCycle nfa state visited)"
        by (subst hasCycle.simps) simp
      moreover from False outside have "\<not> cycle_ahead nfa visited state"
        by (subst cycle_ahead_step) (simp add: eps_edges_iff)
      ultimately show ?thesis
        by simp
    next
      case True
      then have "\<not> length (nfa_States nfa) \<le> state"
        by simp
      note IH = 1 [OF False this]
      from False True have
        "fst (hasCycle nfa state visited)
           = fst (hasCycle_loop nfa (s_EpsilonTo (nfa_States nfa ! state))
                   (insert state visited))"
        by (subst hasCycle.simps) (simp add: Let_def split: prod.splits)
      with IH False True show ?thesis
        by (subst cycle_ahead_step) (auto simp: eps_edges_iff)
    qed
  qed
next
  case (2 nfa visited)
  show ?case
    by simp
next
  case (3 nfa "next" rest visited)
  show ?case
  proof (cases "fst (hasCycle nfa next visited)")
    case True
    then have "fst (hasCycle_loop nfa (next # rest) visited)"
      by (cases "hasCycle nfa next visited") simp
    with True 3(1) show ?thesis
      by auto
  next
    case False
    from hasCycle_unmarks(1) [OF False] False
    have r: "hasCycle nfa next visited = (False, visited)"
      by (cases "hasCycle nfa next visited") simp
    note r' = r [symmetric]
    from r have "hasCycle_loop nfa (next # rest) visited = hasCycle_loop nfa rest visited"
      by simp
    moreover from 3(2) [OF refl r'] have
      "fst (hasCycle_loop nfa rest visited)
         \<longleftrightarrow> (\<exists>next \<in> set rest. cycle_ahead nfa visited next)"
      by simp
    ultimately show ?thesis
      using False 3(1) by auto
  qed
qed

lemma isInQuantifierLoop_reaches:
  "isInQuantifierLoop nfa state \<longleftrightarrow> reaches_eps_cycle nfa state"
  by (simp add: isInQuantifierLoop_def hasCycle_cycle_ahead cycle_ahead_def
      reaches_eps_cycle_def)


text \<open>
  C5. The claim wants an issue for an ambiguous state exactly if the state lies on
  an epsilon cycle. \<open>hasCycle\<close> follows the epsilon edges from the state and answers
  true as soon as the search path meets itself, wherever that happens. In the
  automaton of \<open>(a*)*\<close> the start state 0 is ambiguous (its closure has five
  states) and no epsilon edge leads back into it, so it lies on no cycle; the
  search from 0 reaches the cycle between states 2 and 3, and the state gets an
  issue. The same holds for state 5. All four ambiguous states get an issue, and
  the check of the syntax tree adds a fifth.
\<close>

theorem isInQuantifierLoop_counterexample:
  "Parse sample_lib NewParser ''(a*)*''
     = Inr (mk_Star (mk_Capture (mk_Star (mk_Literal ''a''))))
   \<and> BuildNFA (mk_Star (mk_Capture (mk_Star (mk_Literal ''a'')))) = Inr nested_stars
   \<and> findAmbiguousStates nested_stars = [0, 2, 3, 5]
   \<and> isInQuantifierLoop nested_stars 0 \<and> \<not> on_eps_cycle nested_stars 0
   \<and> isInQuantifierLoop nested_stars 5 \<and> \<not> on_eps_cycle nested_stars 5
   \<and> map_sum id (map d_Message)
       (AnalyzePattern sample_lib (mk_Star (mk_Capture (mk_Star (mk_Literal ''a''))))
          ''(a*)*'')
     = Inr [''Exponential ambiguity detected: multiple paths through quantifier'',
            ''Exponential ambiguity detected: multiple paths through quantifier'',
            ''Exponential ambiguity detected: multiple paths through quantifier'',
            ''Exponential ambiguity detected: multiple paths through quantifier'',
            ''Nested quantifiers create exponential ambiguity'']"
proof -
  have p: "Parse sample_lib NewParser ''(a*)*''
             = Inr (mk_Star (mk_Capture (mk_Star (mk_Literal ''a''))))"
    by (simp add: Parse_def NewParser_def sample_lib_def sample_Parse_def)
  have a: "findAmbiguousStates nested_stars = [0, 2, 3, 5]"
    by code_simp
  have l: "isInQuantifierLoop nested_stars 0" "isInQuantifierLoop nested_stars 5"
    by code_simp+
  have edges: "(r, q) \<in> eps_edges nested_stars \<Longrightarrow> q \<noteq> 0 \<and> q \<noteq> 5" for r q
    by (auto simp: eps_edges_iff nested_stars_def less_Suc_eq eval_nat_numeral)
  have "q \<noteq> 0 \<and> q \<noteq> 5" if "(r, q) \<in> (eps_edges nested_stars)\<^sup>+" for r q
    using tranclD2 [OF that] edges by blast
  then have c: "\<not> on_eps_cycle nested_stars 0" "\<not> on_eps_cycle nested_stars 5"
    unfolding on_eps_cycle_def by blast+
  have e: "map d_Message
             (detectEDA sample_lib nested_stars
                (mk_Star (mk_Capture (mk_Star (mk_Literal ''a'')))) ''(a*)*'')
           = [''Exponential ambiguity detected: multiple paths through quantifier'',
              ''Exponential ambiguity detected: multiple paths through quantifier'',
              ''Exponential ambiguity detected: multiple paths through quantifier'',
              ''Exponential ambiguity detected: multiple paths through quantifier'',
              ''Nested quantifiers create exponential ambiguity'']"
    by code_simp
  have i: "detectIDA sample_lib nested_stars
             (mk_Star (mk_Capture (mk_Star (mk_Literal ''a'')))) ''(a*)*'' = []"
    by code_simp
  have "map_sum id (map d_Message)
          (AnalyzePattern sample_lib (mk_Star (mk_Capture (mk_Star (mk_Literal ''a''))))
             ''(a*)*'')
        = Inr (map d_Message
                 (detectEDA sample_lib nested_stars
                    (mk_Star (mk_Capture (mk_Star (mk_Literal ''a'')))) ''(a*)*''))"
    by (simp add: AnalyzePattern_def BuildNFA_nested_stars Let_def i)
  with p a l c e show ?thesis
    by (simp add: BuildNFA_nested_stars)
qed

text \<open>
  C5, as the code has it. The closure that \<open>ComputeEpsilonClosure\<close> computes for a
  state is the set of the states that it reaches along epsilon edges, itself
  included. \<open>findAmbiguousStates\<close> returns, in order, the states of the automaton
  whose closure has more than 3 states. \<open>detectEDA\<close> emits for each of them one
  \<open>exponential_backtracking\<close> issue, critical, with complexity 95, exactly if the
  state reaches, along epsilon edges, a state that lies on an epsilon cycle; the
  state itself need not lie on the cycle. After these it adds one more such issue
  if the syntax tree has a quantifier inside a quantifier.
\<close>

theorem detectEDA_ambiguous_states:
  "ComputeEpsilonClosure nfa state = (eps_edges nfa)\<^sup>* `` {state}
   \<and> findAmbiguousStates nfa
       = filter (\<lambda>state. card ((eps_edges nfa)\<^sup>* `` {state}) > 3)
           [0..<length (nfa_States nfa)]
   \<and> (isInQuantifierLoop nfa state \<longleftrightarrow> reaches_eps_cycle nfa state)
   \<and> detectEDA L nfa re pattern
       = concat (map (\<lambda>state.
                   if reaches_eps_cycle nfa state
                   then [\<lparr>d_Type = ''exponential_backtracking'', d_Severity = ''critical'',
                          d_Position = span pattern, d_Pattern = pattern,
                          d_Message =
                            ''Exponential ambiguity detected: multiple paths through quantifier'',
                          d_Example = generateEDAExample state,
                          d_Suggestion = ''Remove nested quantifiers or use atomic grouping'',
                          d_Complexity = 95\<rparr>]
                   else [])
                 (findAmbiguousStates nfa))
         @ (if findNestedQuantifiersInNFA L re \<noteq> []
            then [\<lparr>d_Type = ''exponential_backtracking'', d_Severity = ''critical'',
                   d_Position = span pattern, d_Pattern = pattern,
                   d_Message = ''Nested quantifiers create exponential ambiguity'',
                   d_Example = ''aaaaaaaax'', d_Suggestion = ''Simplify quantifier nesting'',
                   d_Complexity = 95\<rparr>]
            else [])"
proof (intro conjI)
  show "ComputeEpsilonClosure nfa state = (eps_edges nfa)\<^sup>* `` {state}"
    by (rule ComputeEpsilonClosure_reachable)
  show "findAmbiguousStates nfa
          = filter (\<lambda>state. card ((eps_edges nfa)\<^sup>* `` {state}) > 3)
              [0..<length (nfa_States nfa)]"
    by (simp add: findAmbiguousStates_filter ComputeEpsilonClosure_reachable)
  show "isInQuantifierLoop nfa state \<longleftrightarrow> reaches_eps_cycle nfa state"
    by (rule isInQuantifierLoop_reaches)
  show "detectEDA L nfa re pattern
       = concat (map (\<lambda>state.
                   if reaches_eps_cycle nfa state
                   then [\<lparr>d_Type = ''exponential_backtracking'', d_Severity = ''critical'',
                          d_Position = span pattern, d_Pattern = pattern,
                          d_Message =
                            ''Exponential ambiguity detected: multiple paths through quantifier'',
                          d_Example = generateEDAExample state,
                          d_Suggestion = ''Remove nested quantifiers or use atomic grouping'',
                          d_Complexity = 95\<rparr>]
                   else [])
                 (findAmbiguousStates nfa))
         @ (if findNestedQuantifiersInNFA L re \<noteq> []
            then [\<lparr>d_Type = ''exponential_backtracking'', d_Severity = ''critical'',
                   d_Position = span pattern, d_Pattern = pattern,
                   d_Message = ''Nested quantifiers create exponential ambiguity'',
                   d_Example = ''aaaaaaaax'', d_Suggestion = ''Simplify quantifier nesting'',
                   d_Complexity = 95\<rparr>]
            else [])"
    by (simp add: detectEDA_def Let_def fold_append_if isInQuantifierLoop_reaches)
qed

theorem detectEDA_ambiguous_states_witness:
  "card ((eps_edges nested_stars)\<^sup>* `` {0}) = 5
   \<and> card ((eps_edges nested_stars)\<^sup>* `` {1}) = 1
   \<and> findAmbiguousStates nested_stars = [0, 2, 3, 5]
   \<and> reaches_eps_cycle nested_stars 0
   \<and> \<not> reaches_eps_cycle nested_stars 4
   \<and> map (\<lambda>i. (d_Type i, d_Severity i, d_Complexity i))
       (detectEDA sample_lib nested_stars
          (mk_Star (mk_Capture (mk_Star (mk_Literal ''a'')))) ''(a*)*'')
     = replicate 5 (''exponential_backtracking'', ''critical'', 95)"
proof -
  have c: "card (ComputeEpsilonClosure nested_stars 0) = 5"
      "card (ComputeEpsilonClosure nested_stars 1) = 1"
    by code_simp+
  have l: "isInQuantifierLoop nested_stars 0" "\<not> isInQuantifierLoop nested_stars 4"
    by code_simp+
  have a: "findAmbiguousStates nested_stars = [0, 2, 3, 5]"
    by code_simp
  have e: "map (\<lambda>i. (d_Type i, d_Severity i, d_Complexity i))
             (detectEDA sample_lib nested_stars
                (mk_Star (mk_Capture (mk_Star (mk_Literal ''a'')))) ''(a*)*'')
           = replicate 5 (''exponential_backtracking'', ''critical'', 95)"
    by code_simp
  from detectEDA_ambiguous_states [of nested_stars 0] c(1)
  have "card ((eps_edges nested_stars)\<^sup>* `` {0}) = 5"
    by simp
  moreover from detectEDA_ambiguous_states [of nested_stars 1] c(2)
  have "card ((eps_edges nested_stars)\<^sup>* `` {1}) = 1"
    by simp
  moreover from detectEDA_ambiguous_states [of nested_stars 0] l(1)
  have "reaches_eps_cycle nested_stars 0"
    by simp
  moreover from detectEDA_ambiguous_states [of nested_stars 4] l(2)
  have "\<not> reaches_eps_cycle nested_stars 4"
    by simp
  ultimately show ?thesis
    using a e by simp
qed

end
